theory Spec2Isabelle
  imports
    Main
    "HOL-Library.Word"
    "HOL-Library.Signed_Division"
    "HOL-Library.Finite_Map"
    "HOL-Library.Sublist"
begin

unbundle bit_operations_syntax

section \<open>Errors, platform objects and the trace of platform calls\<close>

text \<open>
  Go functions of the operator return an \<open>error\<close> that is \<open>nil\<close> on success. The model
  uses \<open>error option\<close> for it (\<open>None\<close> is \<open>nil\<close>). The constructors are the error values
  the modelled files create or tell apart:
  \<^item> \<open>NotFound\<close>: an API status error for which \<open>apierrors.IsNotFound\<close> holds;
  \<^item> \<open>ApiError\<close>: any other error handed back by a platform client call;
  \<^item> \<open>ErrVersionOutdated\<close> (watcher.go) and \<open>ErrUnavailable\<close> (package operator);
  \<^item> \<open>Errorf\<close>: \<open>fmt.Errorf\<close> with its format string and arguments;
  \<^item> \<open>ErrorfWrap\<close>: \<open>fmt.Errorf\<close> whose only argument is another error (\<open>%v\<close>);
  \<^item> \<open>ErrorsNew\<close>: \<open>errors.New\<close> with its message;
  \<^item> \<open>RetryError\<close>: the bounded retry helper gave up after that many attempts.
  A value formatted by \<open>fmt.Sprintf\<close> with \<open>%d\<close> or \<open>%s\<close> verbs is kept as the format
  string with its arguments.
\<close>

type_synonym go_int = "64 word"

datatype arg = S string | D go_int

type_synonym sprintf = "string \<times> arg list"

datatype error =
    NotFound string
  | ApiError string
  | ErrVersionOutdated
  | ErrUnavailable
  | Errorf string "arg list"
  | ErrorfWrap string error
  | ErrorsNew string
  | RetryError int

fun IsNotFound :: "error option \<Rightarrow> bool" where
  "IsNotFound (Some (NotFound m)) = True"
| "IsNotFound e = False"

text \<open>
  A function that returns only an \<open>error\<close> and may panic has a \<open>result\<close>: \<open>OK\<close> for
  \<open>nil\<close>, \<open>Fail e\<close> for the error \<open>e\<close>, \<open>Panic\<close> for a run-time panic (index out of
  range, nil dereference) that unwinds through the callers.
\<close>

datatype result = OK | Fail error | Panic string

fun result_of :: "error option \<Rightarrow> result" where
  "result_of None = OK"
| "result_of (Some e) = Fail e"

text \<open>Durations are \<open>time.Duration\<close> values: a count of nanoseconds.\<close>

type_synonym duration = int

definition Second :: duration where
  "Second = 1000000000"

record Pod =
  PodName :: string
  PodImage :: string
  PodReady :: bool

record Job =
  JobName :: string
  JobActive :: int

record Store =
  StoreID :: int
  StoreName :: string
  StoreBuried :: bool

text \<open>
  The cluster object \<open>operator.Db\<close> with the fields the modelled functions read or write.
  In the source \<open>db.Tidb\<close> points to the \<open>Tidb\<close> role and \<open>td.Db\<close> points back to the
  cluster; the model keeps the role inside the cluster record, and a method of \<open>*Tidb\<close>
  is a function on the cluster record: both pointers are taken to be set. \<open>Tidb\<close>
  embeds \<open>Spec\<close>, so \<open>td.Replicas\<close> and \<open>td.Spec.Replicas\<close> are the same field. The
  stores are those of the storage role, \<open>db.Tikv.Stores\<close>. \<open>Phase\<close> is an integer type
  whose constants are declared in another file.
\<close>

record Metadata =
  Name :: string
  ResourceVersion :: string

record Tidb =
  Version :: string
  Replicas :: go_int
  Members :: "string list"
  cur :: string

record Status =
  Phase :: int
  ScaleState :: go_int
  OuterStatusAddresses :: "string list"

record Db =
  Metadata :: Metadata
  Tidb :: Tidb
  Stores :: "Store list"
  Status :: Status

definition GetName :: "Db \<Rightarrow> string" where
  "GetName db = Name (Metadata db)"

record DbList =
  Items :: "Db list"
  ListResourceVersion :: string

datatype PVProvisioner = NilPVProvisioner | HostPathPVProvisioner string string

datatype EventType = Added | Modified | Deleted

record Event =
  Type :: EventType
  Object :: Db

record StatusResp =
  Code :: int
  Message :: string

text \<open>
  Every call that leaves the process is an \<open>action\<close>; a run appends its actions to a
  trace, oldest first. \<open>Sleep\<close> is \<open>time.Sleep\<close> (or the wait between two attempts of the
  retry helper), \<open>NewEvent\<close> and \<open>EventTrace\<close> are the audit event of package operator,
  \<open>LogWarn\<close> is the warning of the event dispatcher in \<open>Run\<close>. The other \<open>logs\<close> calls
  are not recorded. \<open>GoCleanClusters d\<close> is the \<open>go\<close> statement of \<open>Run\<close> that starts the
  periodic sweep: a goroutine that calls \<open>cleanClusters\<close> every \<open>d\<close>.
\<close>

datatype action =
    JobsCreate Job
  | JobsGet string
  | JobsDelete string
  | DeletePodsByLabel "(string \<times> string) list"
  | GetPods string string
  | ListPodNames string string
  | DeletePods string
  | HttpGet string duration
  | UpgradeRC string string string
  | ScaleReplicationController string go_int
  | Sleep duration
  | NewEvent string string string
  | EventTrace string string string "error option" sprintf
  | CreateTPR
  | GetAllDbs
  | GetMetadata
  | Clean PVProvisioner "Store list"
  | Gc "Db option" "Db option" "PVProvisioner option"
  | GoCleanClusters duration
  | WatchTidbs string
  | StopWatch
  | LogWarn error

type_synonym trace = "action list"

text \<open>
  The platform and the parts of the repository that are not among the modelled files are
  the environment \<open>env\<close>. A client call is an oracle: it is given the trace of the calls
  made so far and its arguments, and answers with what the call returns, so that the same
  call can be answered differently at different times. The remaining fields are constants
  and helper functions of other files of the repository, taken as parameters:
  \<open>imageRegistry\<close>, \<open>PhaseTidbStarted\<close>, \<open>tidbScaleErr\<close>,
  \<open>waitTidbComponentAvailableTimeout\<close>, \<open>needUpgrade\<close>, \<open>IsPodOk\<close>,
  \<open>AfterPropertiesSet\<close>, the two provisioner names of package constants, and the order
  in which a \<open>range\<close> over the cluster map visits its keys.
\<close>

record env =
  jobsCreate :: "trace \<Rightarrow> Job \<Rightarrow> error + Job"
  jobsGet :: "trace \<Rightarrow> string \<Rightarrow> error + Job"
  jobsDelete :: "trace \<Rightarrow> string \<Rightarrow> error option"
  deletePodsByLabel :: "trace \<Rightarrow> (string \<times> string) list \<Rightarrow> error option"
  getPods :: "trace \<Rightarrow> string \<Rightarrow> string \<Rightarrow> error + Pod list"
  listPodNames :: "trace \<Rightarrow> string \<Rightarrow> string \<Rightarrow> error + string list"
  deletePods :: "trace \<Rightarrow> string \<Rightarrow> error option"
  httpGet :: "trace \<Rightarrow> string \<Rightarrow> duration \<Rightarrow> error option"
  upgradeRC :: "trace \<Rightarrow> string \<Rightarrow> string \<Rightarrow> string \<Rightarrow> error option"
  scaleReplicationController :: "trace \<Rightarrow> string \<Rightarrow> go_int \<Rightarrow> error option"
  getCachedMetadataTidbMax :: "trace \<Rightarrow> go_int"
  createTPR :: "trace \<Rightarrow> error option"
  getAllDbs :: "trace \<Rightarrow> error + DbList option"
  getMetadataVolume :: "trace \<Rightarrow> error + string"
  pvClean :: "trace \<Rightarrow> PVProvisioner \<Rightarrow> Store list \<Rightarrow> error option"
  gc :: "trace \<Rightarrow> Db option \<Rightarrow> Db option \<Rightarrow> PVProvisioner option \<Rightarrow> error option"
  watchTidbs :: "trace \<Rightarrow> string \<Rightarrow> error + ((Event option \<times> StatusResp option) list \<times> bool)"
  imageRegistry :: string
  PhaseTidbStarted :: int
  tidbScaleErr :: go_int
  waitTidbComponentAvailableTimeout :: duration
  needUpgrade :: "Pod \<Rightarrow> string \<Rightarrow> bool"
  IsPodOk :: "Pod \<Rightarrow> bool"
  AfterPropertiesSet :: "Db \<Rightarrow> Db"
  PVProvisionerNone :: string
  PVProvisionerHostpath :: string
  rangeKeys :: "(string, Db) fmap \<Rightarrow> string list"

section \<open>pkg/util/retryutil: the bounded retry helper\<close>

text \<open>
  A condition is the function the retry helper polls: it reports whether it succeeded, or
  an error. It works on a state \<open>'s\<close> (what its closure captures) and on the trace.
\<close>

type_synonym 's condition = "'s \<Rightarrow> trace \<Rightarrow> (bool \<times> error option) \<times> 's \<times> trace"

text \<open>
  Modelled from the spec: the loop of \<open>retryutil.Retry\<close>, which \<open>waitForOk\<close> and
  \<open>CreateAndWaitJob\<close> call but whose file is not among the sources. The spec describes
  the helper as a bounded, fixed-interval retry (interval times attempt count gives the
  timeout) in which any single iteration's failure is non-fatal and is retried, and
  exhausting the attempts is fatal and surfaced to the caller. The loop therefore calls the
  condition \<open>f\<close> until an attempt reports success, at most as many times as attempts are
  left, waits \<open>interval\<close> between two attempts, and gives a \<open>RetryError\<close> when no attempt
  succeeded.
\<close>

fun retry_loop :: "duration \<Rightarrow> int \<Rightarrow> nat \<Rightarrow> 's condition \<Rightarrow> 's \<Rightarrow> trace \<Rightarrow> error option \<times> 's \<times> trace" where
  "retry_loop interval maxRetries 0 f s tr = (Some (RetryError maxRetries), s, tr)"
| "retry_loop interval maxRetries (Suc n) f s tr =
     (case f s tr of
        ((True, None), s', tr') \<Rightarrow> (None, s', tr')
      | (r, s', tr') \<Rightarrow>
          if n = 0 then (Some (RetryError maxRetries), s', tr')
          else retry_loop interval maxRetries n f s' (tr' @ [Sleep interval]))"

text \<open>
  Modelled from the spec: \<open>retryutil.Retry\<close>, not among the sources. \<open>Retry interval
  maxRetries f\<close> makes at most \<open>maxRetries\<close> attempts of \<open>f\<close>, none when \<open>maxRetries\<close> is
  not positive.
\<close>

definition Retry :: "duration \<Rightarrow> int \<Rightarrow> 's condition \<Rightarrow> 's \<Rightarrow> trace \<Rightarrow> error option \<times> 's \<times> trace" where
  "Retry interval maxRetries f s tr = retry_loop interval maxRetries (nat maxRetries) f s tr"

section \<open>pkg/util/k8sutil/job.go\<close>

text \<open>
  \<open>CreateAndWaitJob\<close>: create the job, then poll once a second, \<open>int(timeout/interval)\<close>
  times at most, until the job reports one active pod. The closure assigns the job it
  read to \<open>retjob\<close>; the state of the condition is that variable, and it keeps its
  value when the read fails. Go divides durations by truncation (\<open>sdiv\<close>).
\<close>

definition job_condition :: "env \<Rightarrow> string \<Rightarrow> Job condition" where
  "job_condition k name retjob tr =
     (case jobsGet k tr name of
        Inl err \<Rightarrow> ((False, Some err), retjob, tr @ [JobsGet name])
      | Inr j \<Rightarrow>
          (if JobActive j = 1 then ((True, None), j, tr @ [JobsGet name])
           else ((False, None), j, tr @ [JobsGet name])))"

definition CreateAndWaitJob :: "env \<Rightarrow> Job \<Rightarrow> duration \<Rightarrow> trace \<Rightarrow> (Job option \<times> error option) \<times> trace" where
  "CreateAndWaitJob k job timeout tr =
     (case jobsCreate k tr job of
        Inl err \<Rightarrow> ((None, Some err), tr @ [JobsCreate job])
      | Inr retjob \<Rightarrow>
          (let interval = Second;
               (err, retjob', tr') =
                  Retry interval (timeout sdiv interval) (job_condition k (JobName job))
                    retjob (tr @ [JobsCreate job])
           in ((Some retjob', err), tr')))"

text \<open>\<open>DeleteJob\<close>: delete a job by name.\<close>

definition DeleteJob :: "env \<Rightarrow> string \<Rightarrow> trace \<Rightarrow> error option \<times> trace" where
  "DeleteJob k name tr =
     (let err = jobsDelete k tr name;
          tr1 = tr @ [JobsDelete name]
      in if \<not> IsNotFound err then (err, tr1)
         else (deletePodsByLabel k tr1 [(''job-name'', name)],
               tr1 @ [DeletePodsByLabel [(''job-name'', name)]]))"

section \<open>Package operator: the SQL-frontend role (tidb)\<close>

text \<open>\<open>syncMembers\<close>: the member list becomes the names of the live pods.\<close>

definition syncMembers :: "env \<Rightarrow> Db \<Rightarrow> trace \<Rightarrow> error option \<times> Db \<times> trace" where
  "syncMembers k db tr =
     (case listPodNames k tr (GetName db) ''tidb'' of
        Inl err \<Rightarrow> (Some err, db, tr @ [ListPodNames (GetName db) ''tidb''])
      | Inr pods \<Rightarrow>
          (None, db\<lparr>Tidb := (Tidb db)\<lparr>Members := pods\<rparr>\<rparr>,
           tr @ [ListPodNames (GetName db) ''tidb'']))"

text \<open>
  The closure that \<open>waitForOk\<close> hands to the retry helper: one poll of the health gate.
  \<open>count\<close> is a Go \<open>int\<close> compared with \<open>td.Replicas\<close>.
\<close>

definition waitForOk_condition :: "env \<Rightarrow> string \<Rightarrow> Db condition" where
  "waitForOk_condition k url db tr =
     (let tr1 = tr @ [GetPods (GetName db) ''tidb''] in
      case getPods k tr (GetName db) ''tidb'' of
        Inl err \<Rightarrow> ((False, Some err), db, tr1)
      | Inr pods \<Rightarrow>
          (let count = (of_nat (length (filter (IsPodOk k) pods)) :: go_int) in
           if count \<noteq> Replicas (Tidb db) then ((False, None), db, tr1)
           else
             (case httpGet k tr1 url (2 * Second) of
                Some err \<Rightarrow> ((False, None), db, tr1 @ [HttpGet url (2 * Second)])
              | None \<Rightarrow>
                  (case syncMembers k db (tr1 @ [HttpGet url (2 * Second)]) of
                     (Some err, db', tr') \<Rightarrow> ((False, Some err), db', tr')
                   | (None, db', tr') \<Rightarrow> ((True, None), db', tr')))))"

text \<open>
  \<open>waitForOk\<close>, the health gate. Reading \<open>OuterStatusAddresses[0]\<close> panics on an empty
  list. \<open>sURL\<close> is the status URL the gate polls, from \<open>td.cur\<close> and that first
  address; \<open>defaultTidbStatusPort\<close> is 10080.
\<close>

definition sURL :: "string \<Rightarrow> string \<Rightarrow> string" where
  "sURL c a =
     (let host = (if c \<noteq> [] then c @ '':10080'' else a) in ''http://'' @ host @ ''/status'')"

definition waitForOk :: "env \<Rightarrow> Db \<Rightarrow> trace \<Rightarrow> result \<times> Db \<times> trace" where
  "waitForOk k db tr =
     (case OuterStatusAddresses (Status db) of
        [] \<Rightarrow> (Panic ''index out of range'', db, tr)
      | a # as \<Rightarrow>
          (let interval = 3 * Second;
               (err, db', tr') =
                  Retry interval (waitTidbComponentAvailableTimeout k sdiv interval)
                    (waitForOk_condition k (sURL (cur (Tidb db)) a)) db tr
           in (result_of err, db', tr')))"

text \<open>
  \<open>upgrade\<close>. The loop over the listed pods is \<open>upgrade_pods\<close>; it carries the flag
  \<open>upgraded\<close>. The deferred function clears \<open>td.cur\<close> and writes the audit event when a
  pod was touched or the local \<open>err\<close> is set; when \<open>waitForOk\<close> panics, \<open>err\<close> still holds
  the \<open>nil\<close> of the pod deletion before it.
\<close>

fun upgrade_pods :: "env \<Rightarrow> Pod list \<Rightarrow> bool \<Rightarrow> Db \<Rightarrow> trace \<Rightarrow> result \<times> bool \<times> Db \<times> trace" where
  "upgrade_pods k [] upgraded db tr = (OK, upgraded, db, tr)"
| "upgrade_pods k (pod # pods) upgraded db tr =
     (if needUpgrade k pod (Version (Tidb db)) then
        (case deletePods k tr (PodName pod) of
           Some err \<Rightarrow> (Fail err, True, db, tr @ [DeletePods (PodName pod)])
         | None \<Rightarrow>
             (case waitForOk k (db\<lparr>Tidb := (Tidb db)\<lparr>cur := PodName pod\<rparr>\<rparr>)
                     (tr @ [DeletePods (PodName pod), Sleep (8 * Second)]) of
                (OK, db', tr') \<Rightarrow> upgrade_pods k pods True db' tr'
              | (r, db', tr') \<Rightarrow> (r, True, db', tr')))
      else upgrade_pods k pods upgraded db tr)"

fun err_var :: "result \<Rightarrow> error option" where
  "err_var (Fail e) = Some e"
| "err_var r = None"

definition upgrade_body :: "env \<Rightarrow> Db \<Rightarrow> trace \<Rightarrow> result \<times> bool \<times> Db \<times> trace" where
  "upgrade_body k db tr =
     (let newImage = imageRegistry k @ ''/tidb:'' @ Version (Tidb db);
          rc = ''tidb-'' @ GetName db
      in if Phase (Status db) < PhaseTidbStarted k then (Fail ErrUnavailable, False, db, tr)
         else
           (case upgradeRC k tr rc newImage (Version (Tidb db)) of
              Some err \<Rightarrow> (Fail err, False, db, tr @ [UpgradeRC rc newImage (Version (Tidb db))])
            | None \<Rightarrow>
                (let tr1 = tr @ [UpgradeRC rc newImage (Version (Tidb db))] in
                 case getPods k tr1 (GetName db) ''tidb'' of
                   Inl err \<Rightarrow> (Fail err, False, db, tr1 @ [GetPods (GetName db) ''tidb''])
                 | Inr pods \<Rightarrow>
                     upgrade_pods k pods False db (tr1 @ [GetPods (GetName db) ''tidb'']))))"

definition upgrade :: "env \<Rightarrow> Db \<Rightarrow> trace \<Rightarrow> result \<times> Db \<times> trace" where
  "upgrade k db tr =
     (let (r, upgraded, db', tr') =
            upgrade_body k db (tr @ [NewEvent (GetName db) ''tidb/tidb'' ''upgrate''])
      in (r, db'\<lparr>Tidb := (Tidb db')\<lparr>cur := []\<rparr>\<rparr>,
          if upgraded \<or> err_var r \<noteq> None
          then tr' @ [EventTrace (GetName db) ''tidb/tidb'' ''upgrate'' (err_var r)
                        (''Upgrate tidb to version: %s'', [S (Version (Tidb db'))])]
          else tr'))"

text \<open>\<open>checkStatus\<close>: delete every pod that is not healthy.\<close>

fun checkStatus_pods :: "env \<Rightarrow> Pod list \<Rightarrow> trace \<Rightarrow> error option \<times> trace" where
  "checkStatus_pods k [] tr = (None, tr)"
| "checkStatus_pods k (pod # pods) tr =
     (if \<not> IsPodOk k pod then
        (case deletePods k tr (PodName pod) of
           Some err \<Rightarrow> (Some err, tr @ [DeletePods (PodName pod)])
         | None \<Rightarrow> checkStatus_pods k pods (tr @ [DeletePods (PodName pod)]))
      else checkStatus_pods k pods tr)"

definition checkStatus :: "env \<Rightarrow> Db \<Rightarrow> trace \<Rightarrow> error option \<times> trace" where
  "checkStatus k db tr =
     (case getPods k tr (GetName db) ''tidb'' of
        Inl err \<Rightarrow> (Some err, tr @ [GetPods (GetName db) ''tidb''])
      | Inr pods \<Rightarrow> checkStatus_pods k pods (tr @ [GetPods (GetName db) ''tidb'']))"

text \<open>
  \<open>reconcileTidbs\<close>, the scale request. The replica counts are Go \<open>int\<close>s: 64-bit two's
  complement, compared as signed values, with products and differences that wrap around.
  \<open>scale_checks\<close> is the chain of the four validations, in the order of the source, with
  the error each one returns.
\<close>

definition scale_checks :: "go_int \<Rightarrow> go_int \<Rightarrow> go_int \<Rightarrow> error option" where
  "scale_checks mx replicas replica =
     (if mx <s replica then Some (Errorf ''the replicas of tidb exceeds max %d'' [D mx])
      else if replica <s 2 then Some (Errorf ''replicas must be greater than 2'' [])
      else if replicas * 3 <s replica
        then Some (Errorf ''each scale out can not more then 2 times'' [])
      else if replicas <s (replicas - replica) * 3
        then Some (Errorf ''each scale dowm can not be less than one-third'' [])
      else None)"

definition reconcile_body :: "env \<Rightarrow> go_int \<Rightarrow> Db \<Rightarrow> trace \<Rightarrow> result \<times> Db \<times> trace" where
  "reconcile_body k replica db tr =
     (case scale_checks (getCachedMetadataTidbMax k tr) (Replicas (Tidb db)) replica of
        Some err \<Rightarrow> (Fail err, db, tr)
      | None \<Rightarrow>
          (let db' = db\<lparr>Tidb := (Tidb db)\<lparr>Replicas := replica\<rparr>\<rparr>;
               rc = ''tidb-'' @ GetName db
           in case scaleReplicationController k tr rc replica of
                Some err \<Rightarrow> (Fail err, db', tr @ [ScaleReplicationController rc replica])
              | None \<Rightarrow> waitForOk k db' (tr @ [ScaleReplicationController rc replica])))"

definition reconcileTidbs :: "env \<Rightarrow> go_int \<Rightarrow> Db \<Rightarrow> trace \<Rightarrow> result \<times> Db \<times> trace" where
  "reconcileTidbs k replica db tr =
     (if replica <s 1 \<or> replica = Replicas (Tidb db) then
        (case checkStatus k db tr of (err, tr') \<Rightarrow> (result_of err, db, tr'))
      else
        (let r = Replicas (Tidb db);
             (res, db', tr') =
                reconcile_body k replica db (tr @ [NewEvent (GetName db) ''tidb/tidb'' ''scale''])
         in (res,
             if err_var res \<noteq> None
             then db'\<lparr>Status := (Status db')\<lparr>ScaleState := ScaleState (Status db') OR tidbScaleErr k\<rparr>\<rparr>
             else db',
             tr' @ [EventTrace (GetName db) ''tidb/tidb'' ''scale'' (err_var res)
                      (''Scale tidb '%s' replicas from %d to %d'',
                       [S (GetName db'), D r, D replica])])))"

section \<open>garbagecollection/watcher.go\<close>

text \<open>
  The watcher: its configuration, the cluster map \<open>dbs\<close> and the map \<open>dbRVs\<close> of the
  resource versions last seen. Both are Go maps, that is finite maps. The package-level
  variable \<open>pvProvisioner\<close> is kept in the same record; it is \<open>nil\<close> until
  \<open>initResource\<close> sets it.
\<close>

record Watcher =
  HostName :: string
  PVProvisioner :: string
  dbs :: "(string, Db) fmap"
  dbRVs :: "(string, string) fmap"
  pvProvisioner :: "PVProvisioner option"

definition cleanInterval :: duration where
  "cleanInterval = 30 * Second"

definition initRetryWaitTime :: duration where
  "initRetryWaitTime = 30 * Second"

text \<open>\<open>NewWatcher\<close>: both maps start empty.\<close>

definition NewWatcher :: "string \<Rightarrow> string \<Rightarrow> Watcher" where
  "NewWatcher host provisioner =
     \<lparr>HostName = host, PVProvisioner = provisioner, dbs = fmempty, dbRVs = fmempty,
      pvProvisioner = None\<rparr>"

text \<open>\<open>isDbsCacheUnstable\<close>: the loop over the relisted clusters is \<open>cache_mismatch\<close>.\<close>

fun cache_mismatch :: "(string, string) fmap \<Rightarrow> Db list \<Rightarrow> bool" where
  "cache_mismatch rvs [] = False"
| "cache_mismatch rvs (cd # cds) =
     (case fmlookup rvs (Name (Metadata cd)) of
        None \<Rightarrow> True
      | Some rv \<Rightarrow>
          if rv \<noteq> ResourceVersion (Metadata cd) then True else cache_mismatch rvs cds)"

definition isDbsCacheUnstable :: "Watcher \<Rightarrow> Db list \<Rightarrow> bool" where
  "isDbsCacheUnstable w currentDbs =
     (if fcard (fmdom (dbRVs w)) \<noteq> length currentDbs then True
      else cache_mismatch (dbRVs w) currentDbs)"

text \<open>
  \<open>handleTidbEvent\<close>. The event type is printed with \<open>%s\<close> as the string constant of
  \<open>kwatch.EventType\<close>. The first argument of \<open>gc\<close> is the map entry read at the moment
  of the call, as in the source.
\<close>

fun EventType_string :: "EventType \<Rightarrow> string" where
  "EventType_string Added = ''ADDED''"
| "EventType_string Modified = ''MODIFIED''"
| "EventType_string Deleted = ''DELETED''"

definition unsafe_state :: "EventType \<Rightarrow> error" where
  "unsafe_state t =
     Errorf ''unsafe state. tidb was never created but we received event (%s)''
       [S (EventType_string t)]"

definition handleTidbEvent :: "env \<Rightarrow> Event \<Rightarrow> Watcher \<Rightarrow> trace \<Rightarrow> error option \<times> Watcher \<times> trace" where
  "handleTidbEvent k event w tr =
     (let db = AfterPropertiesSet k (Object event) in
      case Type event of
        Added \<Rightarrow>
          (None,
           w\<lparr>dbs := fmupd (GetName db) db (dbs w),
             dbRVs := fmupd (GetName db) (ResourceVersion (Metadata db)) (dbRVs w)\<rparr>,
           tr)
      | Modified \<Rightarrow>
          (if fmlookup (dbs w) (GetName db) = None then (Some (unsafe_state (Type event)), w, tr)
           else
             (let w' = w\<lparr>dbs := fmupd (GetName db) db (dbs w),
                         dbRVs := fmupd (GetName db) (ResourceVersion (Metadata db)) (dbRVs w)\<rparr>
              in (gc k tr (fmlookup (dbs w') (GetName db)) (Some db) (pvProvisioner w'),
                  w',
                  tr @ [Gc (fmlookup (dbs w') (GetName db)) (Some db) (pvProvisioner w')])))
      | Deleted \<Rightarrow>
          (if fmlookup (dbs w) (GetName db) = None then (Some (unsafe_state (Type event)), w, tr)
           else
             (let w' = w\<lparr>dbs := fmdrop (GetName db) (dbs w),
                         dbRVs := fmdrop (GetName db) (dbRVs w)\<rparr>
              in (gc k tr (fmlookup (dbs w') (GetName db)) None (pvProvisioner w'),
                  w',
                  tr @ [Gc (fmlookup (dbs w') (GetName db)) None (pvProvisioner w')]))))"

text \<open>
  The dispatcher goroutine of \<open>Run\<close>: it takes the events off the channel one by one,
  logs a warning when the handler returns an error, and goes on. The panic timer around
  the handler is left out.
\<close>

definition dispatch :: "env \<Rightarrow> Event \<Rightarrow> Watcher \<Rightarrow> trace \<Rightarrow> Watcher \<times> trace" where
  "dispatch k ev w tr =
     (case handleTidbEvent k ev w tr of
        (Some err, w', tr') \<Rightarrow> (w', tr' @ [LogWarn err])
      | (None, w', tr') \<Rightarrow> (w', tr'))"

fun dispatch_all :: "env \<Rightarrow> Event list \<Rightarrow> Watcher \<Rightarrow> trace \<Rightarrow> Watcher \<times> trace" where
  "dispatch_all k [] w tr = (w, tr)"
| "dispatch_all k (ev # evs) w tr =
     (case dispatch k ev w tr of (w', tr') \<Rightarrow> dispatch_all k evs w' tr')"

text \<open>\<open>findAllDbs\<close>: list the clusters and seed both maps.\<close>

fun seed :: "env \<Rightarrow> Db list \<Rightarrow> Watcher \<Rightarrow> Watcher" where
  "seed k [] w = w"
| "seed k (item # items) w =
     (let db = AfterPropertiesSet k item in
      seed k items
        (w\<lparr>dbs := fmupd (Name (Metadata db)) db (dbs w),
           dbRVs := fmupd (Name (Metadata db)) (ResourceVersion (Metadata db)) (dbRVs w)\<rparr>))"

definition findAllDbs :: "env \<Rightarrow> Watcher \<Rightarrow> trace \<Rightarrow> (error + string) \<times> Watcher \<times> trace" where
  "findAllDbs k w tr =
     (case getAllDbs k tr of
        Inl err \<Rightarrow> (Inl err, w, tr @ [GetAllDbs])
      | Inr None \<Rightarrow> (Inr [], w, tr @ [GetAllDbs])
      | Inr (Some dbList) \<Rightarrow>
          (Inr (ListResourceVersion dbList), seed k (Items dbList) w, tr @ [GetAllDbs]))"

text \<open>
  \<open>initResource\<close>: register the resource type, list the clusters, select the
  provisioner. A provisioner name that is neither of the two constants leaves
  \<open>pvProvisioner\<close> as it was.
\<close>

definition initResource :: "env \<Rightarrow> Watcher \<Rightarrow> trace \<Rightarrow> (error + string) \<times> Watcher \<times> trace" where
  "initResource k w tr =
     (case createTPR k tr of
        Some err \<Rightarrow> (Inl (ErrorfWrap ''fail to create TPR: %v'' err), w, tr @ [CreateTPR])
      | None \<Rightarrow>
          (case findAllDbs k w (tr @ [CreateTPR]) of
             (Inl err, w1, tr1) \<Rightarrow> (Inl err, w1, tr1)
           | (Inr watchVersion, w1, tr1) \<Rightarrow>
               (if PVProvisioner w1 = PVProvisionerNone k
                then (Inr watchVersion, w1\<lparr>pvProvisioner := Some NilPVProvisioner\<rparr>, tr1)
                else if PVProvisioner w1 = PVProvisionerHostpath k
                then
                  (case getMetadataVolume k tr1 of
                     Inl err \<Rightarrow> (Inl err, w1, tr1 @ [GetMetadata])
                   | Inr volume \<Rightarrow>
                       (Inr watchVersion,
                        w1\<lparr>pvProvisioner := Some (HostPathPVProvisioner (HostName w1) volume)\<rparr>,
                        tr1 @ [GetMetadata]))
                else (Inr watchVersion, w1, tr1))))"

text \<open>
  \<open>recycle\<close>: collect the stores of every known cluster and hand them to the
  provisioner's \<open>Clean\<close>. Calling \<open>Clean\<close> on a \<open>nil\<close> provisioner panics. The stores
  of a cluster are \<open>db.Tikv.Stores\<close>; the storage role is taken to be present.
\<close>

definition all_stores :: "env \<Rightarrow> Watcher \<Rightarrow> Store list" where
  "all_stores k w =
     concat (map (\<lambda>key. case fmlookup (dbs w) key of None \<Rightarrow> [] | Some db \<Rightarrow> Stores db)
               (rangeKeys k (dbs w)))"

definition recycle :: "env \<Rightarrow> Watcher \<Rightarrow> trace \<Rightarrow> result \<times> trace" where
  "recycle k w tr =
     (case pvProvisioner w of
        None \<Rightarrow> (Panic ''nil pointer dereference'', tr)
      | Some pv \<Rightarrow> (result_of (pvClean k tr pv (all_stores k w)), tr @ [Clean pv (all_stores k w)]))"

text \<open>
  The goroutine of \<open>watch\<close>. \<open>WatchTidbs\<close> answers with an error or with a stream; the
  stream is given by the values \<open>parse\<close> returns for its raw events, in order, and by
  whether the platform closes it after the last one (otherwise it stays open and silent).
  \<open>recv_loop\<close> is the inner loop. It ends in one of four ways:
  \<^item> \<open>Break\<close>: the loop is left by \<open>break\<close>, with the cursor \<open>watchVersion\<close>;
  \<^item> \<open>Exit\<close>: an error is sent on \<open>errCh\<close> and the goroutine returns;
  \<^item> \<open>Waiting\<close>: the goroutine waits for the next event of a silent stream;
  \<^item> \<open>Crash\<close>: a nil dereference (\<open>ev\<close> is \<open>nil\<close>, or the relisted \<open>dbList\<close> is).
  An event sent on the unbuffered \<open>eventCh\<close> is taken by the dispatcher; the model lets
  the dispatcher finish the event before the goroutine reads the next one.
\<close>

datatype recv =
    Break string Watcher trace
  | Exit error Watcher trace
  | Waiting string Watcher trace
  | Crash string Watcher trace

definition StatusGone :: int where
  "StatusGone = 410"

fun recv_loop ::
  "env \<Rightarrow> (Event option \<times> StatusResp option) list \<Rightarrow> bool \<Rightarrow> string \<Rightarrow> Watcher \<Rightarrow> trace \<Rightarrow> recv" where
  "recv_loop k [] closes watchVersion w tr =
     (if closes then Break watchVersion w tr else Waiting watchVersion w tr)"
| "recv_loop k ((ev, st) # rest) closes watchVersion w tr =
     (if st \<noteq> None \<and> Code (the st) = StatusGone then
        (case getAllDbs k (tr @ [StopWatch]) of
           Inl err \<Rightarrow> Exit ErrVersionOutdated w (tr @ [StopWatch, GetAllDbs])
         | Inr None \<Rightarrow> Crash ''nil pointer dereference'' w (tr @ [StopWatch, GetAllDbs])
         | Inr (Some dbList) \<Rightarrow>
             if \<not> isDbsCacheUnstable w (Items dbList)
             then Break (ListResourceVersion dbList) w (tr @ [StopWatch, GetAllDbs])
             else Exit ErrVersionOutdated w (tr @ [StopWatch, GetAllDbs]))
      else
        (let tr1 = (if st \<noteq> None then tr @ [StopWatch] else tr) in
         case ev of
           None \<Rightarrow> Crash ''nil pointer dereference'' w tr1
         | Some e \<Rightarrow>
             (case dispatch k e w tr1 of
                (w', tr') \<Rightarrow>
                  recv_loop k rest closes (ResourceVersion (Metadata (Object e))) w' tr')))"

text \<open>
  One pass of the outer loop of the goroutine, up to the point where it sends on \<open>errCh\<close>.
\<close>

definition watch_pass :: "env \<Rightarrow> string \<Rightarrow> Watcher \<Rightarrow> trace \<Rightarrow> recv" where
  "watch_pass k watchVersion w tr =
     (case watchTidbs k tr watchVersion of
        Inl err \<Rightarrow> Exit err w (tr @ [WatchTidbs watchVersion])
      | Inr (items, closes) \<Rightarrow>
          recv_loop k items closes watchVersion w (tr @ [WatchTidbs watchVersion]))"

text \<open>
  \<open>Run\<close>. The startup loop retries \<open>initResource\<close> without bound; \<open>init_loop\<close> is
  \<open>None\<close> when it never succeeds. \<open>Run\<close> then returns the first value sent on \<open>errCh\<close>.
  Every pass of the goroutine's outer loop either sends on \<open>errCh\<close> or does not end, so
  that value is decided in the first pass: the error of \<open>WatchTidbs\<close>,
  \<open>ErrVersionOutdated\<close>, or the \<open>errors.New("test")\<close> that follows the inner loop.
  The outcome of \<open>Run\<close> is the error it returns, \<open>Blocks\<close> when it waits on \<open>errCh\<close>
  for good, or \<open>Crashes\<close> when a goroutine panics. The serving loop is entered after
  the recycle pass: first the ticker goroutine of the periodic sweep is started, then the
  watch stream is opened. The start of the ticker goroutine is the action
  \<open>GoCleanClusters\<close>; the sweeps it makes afterwards run beside the watch goroutine, do
  not touch \<open>errCh\<close>, and are not part of the trace.
\<close>

datatype run_outcome = Returns error | Blocks | Crashes string

partial_function (option) init_loop :: "env \<Rightarrow> Watcher \<Rightarrow> trace \<Rightarrow> (string \<times> Watcher \<times> trace) option" where
  "init_loop k w tr =
     (case initResource k w tr of
        (Inr watchVersion, w', tr') \<Rightarrow> Some (watchVersion, w', tr')
      | (Inl err, w', tr') \<Rightarrow> init_loop k w' (tr' @ [Sleep initRetryWaitTime]))"

definition serve :: "env \<Rightarrow> string \<Rightarrow> Watcher \<Rightarrow> trace \<Rightarrow> run_outcome \<times> Watcher \<times> trace" where
  "serve k watchVersion w tr =
     (case watch_pass k watchVersion w tr of
        Exit err w' tr' \<Rightarrow> (Returns err, w', tr')
      | Break v w' tr' \<Rightarrow> (Returns (ErrorsNew ''test''), w', tr')
      | Waiting v w' tr' \<Rightarrow> (Blocks, w', tr')
      | Crash m w' tr' \<Rightarrow> (Crashes m, w', tr'))"

definition Run :: "env \<Rightarrow> Watcher \<Rightarrow> trace \<Rightarrow> (run_outcome \<times> Watcher \<times> trace) option" where
  "Run k w tr =
     (case init_loop k w tr of
        None \<Rightarrow> None
      | Some (watchVersion, w1, tr1) \<Rightarrow>
          (case recycle k w1 tr1 of
             (Fail err, tr2) \<Rightarrow> Some (Returns err, w1, tr2)
           | (Panic m, tr2) \<Rightarrow> Some (Crashes m, w1, tr2)
           | (OK, tr2) \<Rightarrow>
               Some (serve k watchVersion w1 (tr2 @ [GoCleanClusters cleanInterval]))))"

section \<open>Notions used in the statements, and example inputs\<close>

text \<open>The relisted clusters as name/version pairs.\<close>

definition relisted :: "Db list \<Rightarrow> (string \<times> string) list" where
  "relisted cds = map (\<lambda>cd. (Name (Metadata cd), ResourceVersion (Metadata cd))) cds"

text \<open>
  An example cluster, watcher and environment. In the example environment every platform
  call succeeds, three healthy pods run the image of version \<open>v1\<close>, and the watch stream
  stays open and silent.
\<close>

definition example_db :: "string \<Rightarrow> string \<Rightarrow> Db" where
  "example_db n rv =
     \<lparr>Metadata = \<lparr>Name = n, ResourceVersion = rv\<rparr>,
      Tidb = \<lparr>Version = ''v2'', Replicas = 3, Members = [], cur = []\<rparr>,
      Stores = [],
      Status = \<lparr>Phase = 9, ScaleState = 0, OuterStatusAddresses = [''10.0.0.1:30080'']\<rparr>\<rparr>"

definition example_watcher :: Watcher where
  "example_watcher =
     \<lparr>HostName = ''node1'', PVProvisioner = ''none'',
      dbs = fmupd ''c1'' (example_db ''c1'' ''100'') fmempty,
      dbRVs = fmupd ''c1'' ''100'' fmempty,
      pvProvisioner = Some NilPVProvisioner\<rparr>"

definition example_pods :: "Pod list" where
  "example_pods =
     [\<lparr>PodName = ''tidb-c1-a'', PodImage = ''reg/tidb:v1'', PodReady = True\<rparr>,
      \<lparr>PodName = ''tidb-c1-b'', PodImage = ''reg/tidb:v2'', PodReady = True\<rparr>,
      \<lparr>PodName = ''tidb-c1-c'', PodImage = ''reg/tidb:v1'', PodReady = True\<rparr>]"

definition example_env :: env where
  "example_env =
     \<lparr>jobsCreate = (\<lambda>tr j. Inr j),
      jobsGet = (\<lambda>tr n. Inr \<lparr>JobName = n, JobActive = 1\<rparr>),
      jobsDelete = (\<lambda>tr n. None),
      deletePodsByLabel = (\<lambda>tr ls. None),
      getPods = (\<lambda>tr cell comp. Inr example_pods),
      listPodNames = (\<lambda>tr cell comp. Inr (map PodName example_pods)),
      deletePods = (\<lambda>tr n. None),
      httpGet = (\<lambda>tr url t. None),
      upgradeRC = (\<lambda>tr rc image v. None),
      scaleReplicationController = (\<lambda>tr rc n. None),
      getCachedMetadataTidbMax = (\<lambda>tr. 10),
      createTPR = (\<lambda>tr. None),
      getAllDbs = (\<lambda>tr. Inr (Some \<lparr>Items = [example_db ''c1'' ''100''], ListResourceVersion = ''200''\<rparr>)),
      getMetadataVolume = (\<lambda>tr. Inr ''/data''),
      pvClean = (\<lambda>tr pv stores. None),
      gc = (\<lambda>tr old new pv. None),
      watchTidbs = (\<lambda>tr v. Inr ([], False)),
      imageRegistry = ''reg'',
      PhaseTidbStarted = 9,
      tidbScaleErr = 2,
      waitTidbComponentAvailableTimeout = 9 * Second,
      needUpgrade = (\<lambda>pod v. PodImage pod \<noteq> ''reg/tidb:'' @ v),
      IsPodOk = PodReady,
      AfterPropertiesSet = (\<lambda>db. db),
      PVProvisionerNone = ''none'',
      PVProvisionerHostpath = ''hostpath'',
      rangeKeys = (\<lambda>m. filter (\<lambda>key. fmlookup m key \<noteq> None) [''c1'', ''c2''])\<rparr>"

text \<open>
  The attempts of a bounded poll. \<open>attempt interval f s tr j\<close> is what the \<open>j\<close>-th call
  of the condition \<open>f\<close> returns (counting from 0) when every earlier call was followed by
  a wait of \<open>interval\<close>; the attempt succeeds when it reports \<open>true\<close> without an error.
  \<open>bounded_poll\<close> says of an outcome \<open>err\<close> and a final trace \<open>tr'\<close> that they are
  those of a poll bounded by \<open>maxRetries\<close> attempts: no error exactly when one of the
  attempts succeeds, the error being that of exhausted retries, never more than
  \<open>maxRetries\<close> polling calls, and exactly \<open>maxRetries\<close> of them, one wait between two,
  when the poll fails.
\<close>

fun attempt :: "duration \<Rightarrow> 's condition \<Rightarrow> 's \<Rightarrow> trace \<Rightarrow> nat \<Rightarrow> (bool \<times> error option) \<times> 's \<times> trace" where
  "attempt interval f s tr 0 = f s tr"
| "attempt interval f s tr (Suc j) =
     (case f s tr of (r, s', tr') \<Rightarrow> attempt interval f s' (tr' @ [Sleep interval]) j)"

definition succeeds :: "(bool \<times> error option) \<times> 's \<times> trace \<Rightarrow> bool" where
  "succeeds a = (fst a = (True, None))"

fun is_GetPods :: "action \<Rightarrow> bool" where
  "is_GetPods (GetPods c component) = True"
| "is_GetPods a = False"

fun is_JobsGet :: "action \<Rightarrow> bool" where
  "is_JobsGet (JobsGet n) = True"
| "is_JobsGet a = False"

definition bounded_poll ::
  "duration \<Rightarrow> int \<Rightarrow> (action \<Rightarrow> bool) \<Rightarrow> 's condition \<Rightarrow> 's \<Rightarrow> trace \<Rightarrow> error option \<Rightarrow> trace \<Rightarrow> bool" where
  "bounded_poll interval maxRetries poll f s tr err tr' =
     ((err = None) = (\<exists>j<nat maxRetries. succeeds (attempt interval f s tr j)) \<and>
      (err = None \<or> err = Some (RetryError maxRetries)) \<and>
      (\<exists>sfx. tr' = tr @ sfx \<and> length (filter poll sfx) \<le> nat maxRetries \<and>
         (err \<noteq> None \<longrightarrow>
            length (filter poll sfx) = nat maxRetries \<and>
            count_list sfx (Sleep interval) = nat maxRetries - 1)))"

definition example_job :: Job where
  "example_job = \<lparr>JobName = ''job1'', JobActive = 0\<rparr>"

text \<open>A cluster whose frontend has not started, and a Deleted event for the tracked cluster.\<close>

definition pending_db :: Db where
  "pending_db =
     (example_db ''c1'' ''100'')\<lparr>Status := \<lparr>Phase = 7, ScaleState = 0, OuterStatusAddresses = []\<rparr>\<rparr>"

definition deleted_c1 :: Event where
  "deleted_c1 = \<lparr>Type = Deleted, Object = example_db ''c1'' ''101''\<rparr>"

text \<open>A Modified event for a cluster the watcher has never seen.\<close>

definition modified_c9 :: Event where
  "modified_c9 = \<lparr>Type = Modified, Object = example_db ''c9'' ''300''\<rparr>"

text \<open>
  The shape of a rolling upgrade. \<open>first_address\<close> is the first outer status address of
  the cluster. \<open>gate_action cell url\<close> holds of the calls one run of the health gate makes
  for the cluster \<open>cell\<close> with the status URL \<open>url\<close>: listing the pods, the status
  request, listing the pod names, and the 3-second wait between two polls.
  \<open>deleted_pods\<close> are the names of the pods a trace deletes, in order.
  \<open>passing_poll cell url\<close> are the calls of a poll of the health gate that passes.
\<close>

definition first_address :: "Db \<Rightarrow> string" where
  "first_address db = (case OuterStatusAddresses (Status db) of [] \<Rightarrow> [] | a # as \<Rightarrow> a)"

fun gate_action :: "string \<Rightarrow> string \<Rightarrow> action \<Rightarrow> bool" where
  "gate_action cell url (GetPods c component) = (c = cell \<and> component = ''tidb'')"
| "gate_action cell url (HttpGet u t) = (u = url \<and> t = 2 * Second)"
| "gate_action cell url (ListPodNames c component) = (c = cell \<and> component = ''tidb'')"
| "gate_action cell url (Sleep d) = (d = 3 * Second)"
| "gate_action cell url a = False"




text \<open>
  \<open>members_only db db'\<close>: the cluster \<open>db'\<close> differs from \<open>db\<close> in the member list at
  most; \<open>same_but db db'\<close>: in the member list and in \<open>td.cur\<close> at most.
\<close>

definition members_only :: "Db \<Rightarrow> Db \<Rightarrow> bool" where
  "members_only db db' = (\<exists>ms. db' = db\<lparr>Tidb := (Tidb db)\<lparr>Members := ms\<rparr>\<rparr>)"




text \<open>
  For the scale request: \<open>scale_calls\<close> are the replica counts of the platform scale
  calls in a trace, in order; \<open>scale_rejection mx c r\<close> is the disjunction of the four
  validations for the maximum \<open>mx\<close>, the current count \<open>c\<close> and the requested count
  \<open>r\<close>, in the arithmetic of Go's \<open>int\<close>; \<open>small\<close> bounds a count so that neither
  \<open>c * 3\<close> nor \<open>(c - r) * 3\<close> overflows; \<open>scale_audit\<close> is the audit event of the
  deferred function.
\<close>

fun scale_calls :: "trace \<Rightarrow> go_int list" where
  "scale_calls [] = []"
| "scale_calls (ScaleReplicationController rc n # tr) = n # scale_calls tr"
| "scale_calls (a # tr) = scale_calls tr"

definition scale_rejection :: "go_int \<Rightarrow> go_int \<Rightarrow> go_int \<Rightarrow> bool" where
  "scale_rejection mx c r = (mx <s r \<or> r <s 2 \<or> c * 3 <s r \<or> c <s (c - r) * 3)"

definition small :: "go_int \<Rightarrow> bool" where
  "small x = (- (2 ^ 60) \<le> sint x \<and> sint x < 2 ^ 60)"

definition scale_audit :: "Db \<Rightarrow> go_int \<Rightarrow> result \<Rightarrow> action" where
  "scale_audit db r res =
     EventTrace (GetName db) ''tidb/tidb'' ''scale'' (err_var res)
       (''Scale tidb '%s' replicas from %d to %d'', [S (GetName db), D (Replicas (Tidb db)), D r])"

text \<open>
  The attempts of the startup loop. \<open>init_state k w tr j\<close> is the watcher and the trace
  before the \<open>j\<close>-th call of \<open>initResource\<close> (counting from 0) when every earlier call
  was followed by the 30-second wait; \<open>init_attempt\<close> is what that call returns;
  \<open>first_success k w tr n\<close> says that the attempts before the \<open>n\<close>-th fail and the
  \<open>n\<close>-th succeeds. \<open>startup_action\<close> holds of the calls of the startup loop.
  \<open>enters_serving\<close> holds of the two actions that begin the serving loop: the start of
  the periodic sweep and the opening of a watch stream. \<open>serving_action\<close> holds of the
  calls the watch goroutine and the dispatcher make once the stream is open.
  \<open>recv_trace\<close> is the trace at the end of a pass of the watch goroutine.
\<close>

fun init_state :: "env \<Rightarrow> Watcher \<Rightarrow> trace \<Rightarrow> nat \<Rightarrow> Watcher \<times> trace" where
  "init_state k w tr 0 = (w, tr)"
| "init_state k w tr (Suc j) =
     (case initResource k w tr of
        (r, w', tr') \<Rightarrow> init_state k w' (tr' @ [Sleep initRetryWaitTime]) j)"

definition init_attempt :: "env \<Rightarrow> Watcher \<Rightarrow> trace \<Rightarrow> nat \<Rightarrow> (error + string) \<times> Watcher \<times> trace" where
  "init_attempt k w tr j = (case init_state k w tr j of (w', tr') \<Rightarrow> initResource k w' tr')"

definition first_success :: "env \<Rightarrow> Watcher \<Rightarrow> trace \<Rightarrow> nat \<Rightarrow> bool" where
  "first_success k w tr n =
     ((\<forall>j<n. isl (fst (init_attempt k w tr j))) \<and> \<not> isl (fst (init_attempt k w tr n)))"

fun startup_action :: "action \<Rightarrow> bool" where
  "startup_action CreateTPR = True"
| "startup_action GetAllDbs = True"
| "startup_action GetMetadata = True"
| "startup_action (Sleep d) = (d = 30 * Second)"
| "startup_action a = False"

fun enters_serving :: "action \<Rightarrow> bool" where
  "enters_serving (GoCleanClusters d) = True"
| "enters_serving (WatchTidbs v) = True"
| "enters_serving a = False"

fun serving_action :: "action \<Rightarrow> bool" where
  "serving_action StopWatch = True"
| "serving_action GetAllDbs = True"
| "serving_action (Gc old new pv) = True"
| "serving_action (LogWarn e) = True"
| "serving_action a = False"

fun recv_trace :: "recv \<Rightarrow> trace" where
  "recv_trace (Break v w tr) = tr"
| "recv_trace (Exit e w tr) = tr"
| "recv_trace (Waiting v w tr) = tr"
| "recv_trace (Crash m w tr) = tr"

text \<open>
  A stream item that \<open>parse\<close> turns into an event without a status, and the cursor
  after a list of such events.
\<close>

definition normal :: "Event \<Rightarrow> Event option \<times> StatusResp option" where
  "normal e = (Some e, None)"

definition cursor_after :: "string \<Rightarrow> Event list \<Rightarrow> string" where
  "cursor_after v evs = (if evs = [] then v else ResourceVersion (Metadata (Object (last evs))))"

text \<open>
  Environments that differ from the example in one answer: registering the resource type
  fails twice before it succeeds; the provisioner's \<open>Clean\<close> fails; the watch stream
  cannot be opened; the platform closes the stream at once; the stream yields a 410 status
  and the relist shows cluster \<open>c1\<close> at resource version 105 instead of 100.
\<close>

definition flaky_env :: env where
  "flaky_env =
     example_env\<lparr>createTPR :=
       (\<lambda>tr. if count_list tr CreateTPR < 2 then Some (ApiError ''unavailable'') else None)\<rparr>"

definition clean_fails_env :: env where
  "clean_fails_env = example_env\<lparr>pvClean := (\<lambda>tr pv stores. Some (ApiError ''clean failed''))\<rparr>"

definition refused_env :: env where
  "refused_env = example_env\<lparr>watchTidbs := (\<lambda>tr v. Inl (ApiError ''connection refused''))\<rparr>"

definition closed_env :: env where
  "closed_env = example_env\<lparr>watchTidbs := (\<lambda>tr v. Inr ([], True))\<rparr>"

definition gone_env :: env where
  "gone_env =
     example_env\<lparr>
       watchTidbs := (\<lambda>tr v. Inr ([(None, Some \<lparr>Code = 410, Message = ''too old''\<rparr>)], True)),
       getAllDbs := (\<lambda>tr. if StopWatch \<in> set tr
          then Inr (Some \<lparr>Items = [example_db ''c1'' ''105''], ListResourceVersion = ''300''\<rparr>)
          else Inr (Some \<lparr>Items = [example_db ''c1'' ''100''], ListResourceVersion = ''200''\<rparr>))\<rparr>"

text \<open>
  The example environment with pods that never become ready: every poll of the health
  gate fails.
\<close>

definition unhealthy_env :: env where
  "unhealthy_env = example_env\<lparr>IsPodOk := (\<lambda>pod. False)\<rparr>"

section \<open>Properties of \<open>DeleteJob\<close>\<close>

text \<open>
  Claim C10. \<open>DeleteJob\<close> follows the answer of the platform's job deletion: when the
  deletion succeeds it returns success and deletes no pods; when the deletion reports
  not-found it deletes the pods that carry the label \<open>job-name\<close> of that job and returns
  what that deletion returns; any other error is returned as it is, and no pods are
  deleted.
\<close>

theorem DeleteJob_cases:
  "DeleteJob k name tr =
     (case jobsDelete k tr name of
        None \<Rightarrow> (None, tr @ [JobsDelete name])
      | Some (NotFound m) \<Rightarrow>
          (deletePodsByLabel k (tr @ [JobsDelete name]) [(''job-name'', name)],
           tr @ [JobsDelete name, DeletePodsByLabel [(''job-name'', name)]])
      | Some e \<Rightarrow> (Some e, tr @ [JobsDelete name]))"
  by (simp add: DeleteJob_def Let_def split: option.splits error.splits)

section \<open>Properties of the stability check\<close>

lemma cache_mismatch_iff:
  "\<not> cache_mismatch rvs cds \<longleftrightarrow>
     (\<forall>cd \<in> set cds. fmlookup rvs (Name (Metadata cd)) = Some (ResourceVersion (Metadata cd)))"
  by (induction cds) (auto split: option.splits)

lemma stable_iff_basic:
  "\<not> isDbsCacheUnstable w cds \<longleftrightarrow>
     (fcard (fmdom (dbRVs w)) = length cds \<and>
      (\<forall>cd \<in> set cds. fmlookup (dbRVs w) (Name (Metadata cd)) = Some (ResourceVersion (Metadata cd))))"
  by (simp add: isDbsCacheUnstable_def cache_mismatch_iff)

lemma card_relisted:
  assumes "distinct (map fst (relisted cds))"
  shows "card (set (map fst (relisted cds))) = length cds"
  using distinct_card [OF assms] by (simp add: relisted_def)

lemma stable_iff_same_map:
  assumes d: "distinct (map fst (relisted cds))"
  shows "\<not> isDbsCacheUnstable w cds \<longleftrightarrow> fmlookup (dbRVs w) = map_of (relisted cds)"
proof
  assume st: "\<not> isDbsCacheUnstable w cds"
  then have card: "fcard (fmdom (dbRVs w)) = length cds"
    and all: "\<forall>cd \<in> set cds. fmlookup (dbRVs w) (Name (Metadata cd)) = Some (ResourceVersion (Metadata cd))"
    by (simp_all add: stable_iff_basic)
  have sub: "set (map fst (relisted cds)) \<subseteq> fmdom' (dbRVs w)"
    using all by (auto simp: relisted_def fmlookup_dom'_iff)
  have "card (fmdom' (dbRVs w)) = length cds"
    using card by (simp add: fcard.rep_eq fmdom'_alt_def)
  moreover have "card (set (map fst (relisted cds))) = length cds"
    using d by (rule card_relisted)
  ultimately have eq: "set (map fst (relisted cds)) = fmdom' (dbRVs w)"
    using sub by (simp add: card_subset_eq)
  show "fmlookup (dbRVs w) = map_of (relisted cds)"
  proof
    fix n
    show "fmlookup (dbRVs w) n = map_of (relisted cds) n"
    proof (cases "n \<in> set (map fst (relisted cds))")
      case True
      then obtain cd where cd: "cd \<in> set cds" "n = Name (Metadata cd)"
        by (auto simp: relisted_def)
      then have "(n, ResourceVersion (Metadata cd)) \<in> set (relisted cds)"
        by (auto simp: relisted_def)
      then have "map_of (relisted cds) n = Some (ResourceVersion (Metadata cd))"
        using d by simp
      then show ?thesis using all cd by simp
    next
      case False
      then have "map_of (relisted cds) n = None"
        by (simp add: map_of_eq_None_iff)
      moreover have "fmlookup (dbRVs w) n = None"
        using False eq by (auto simp: fmlookup_dom'_iff)
      ultimately show ?thesis by simp
    qed
  qed
next
  assume m: "fmlookup (dbRVs w) = map_of (relisted cds)"
  have "dom (fmlookup (dbRVs w)) = set (map fst (relisted cds))"
    unfolding m by (simp add: dom_map_of_conv_image_fst)
  then have "fmdom' (dbRVs w) = set (map fst (relisted cds))"
    by simp
  then have "card (fmdom' (dbRVs w)) = length cds"
    using card_relisted [OF d] by simp
  then have "fcard (fmdom (dbRVs w)) = length cds"
    by (simp add: fcard.rep_eq fmdom'_alt_def)
  moreover have "\<forall>cd \<in> set cds. fmlookup (dbRVs w) (Name (Metadata cd)) = Some (ResourceVersion (Metadata cd))"
  proof
    fix cd assume "cd \<in> set cds"
    then have "(Name (Metadata cd), ResourceVersion (Metadata cd)) \<in> set (relisted cds)"
      by (auto simp: relisted_def)
    then show "fmlookup (dbRVs w) (Name (Metadata cd)) = Some (ResourceVersion (Metadata cd))"
      using d m by simp
  qed
  ultimately show "\<not> isDbsCacheUnstable w cds" by (simp add: stable_iff_basic)
qed

text \<open>
  Claim C5. The stability check reports "stable" exactly when the cache holds as many
  names as clusters were relisted and every relisted cluster is in the cache under its
  name with the same resource version. For a relisted set (no name twice) this is the
  same as: the cache and the relisted clusters are the same map from names to versions,
  so that an added name, a removed name or a changed version each make it report
  "unstable".
\<close>

theorem isDbsCacheUnstable_stable_iff:
  "(\<not> isDbsCacheUnstable w cds \<longleftrightarrow>
      (fcard (fmdom (dbRVs w)) = length cds \<and>
       (\<forall>cd \<in> set cds.
          fmlookup (dbRVs w) (Name (Metadata cd)) = Some (ResourceVersion (Metadata cd))))) \<and>
   (distinct (map fst (relisted cds)) \<longrightarrow>
      (\<not> isDbsCacheUnstable w cds \<longleftrightarrow> fmlookup (dbRVs w) = map_of (relisted cds)))"
  using stable_iff_basic stable_iff_same_map by blast

theorem isDbsCacheUnstable_stable_iff_witness:
  "distinct (map fst (relisted [example_db ''c1'' ''100''])) \<and>
   fmlookup (dbRVs example_watcher) ''c1'' = Some ''100'' \<and>
   \<not> isDbsCacheUnstable example_watcher [example_db ''c1'' ''100''] \<and>
   fmlookup (dbRVs example_watcher) = map_of (relisted [example_db ''c1'' ''100''])"
proof -
  have d: "distinct (map fst (relisted [example_db ''c1'' ''100'']))"
    by (simp add: relisted_def)
  have c: "fcard (fmdom (dbRVs example_watcher)) = length [example_db ''c1'' ''100'']"
    by (simp add: example_watcher_def fcard_finsert_if)
  have a: "\<forall>cd \<in> set [example_db ''c1'' ''100''].
      fmlookup (dbRVs example_watcher) (Name (Metadata cd)) = Some (ResourceVersion (Metadata cd))"
    by (simp add: example_watcher_def example_db_def)
  have s: "\<not> isDbsCacheUnstable example_watcher [example_db ''c1'' ''100'']"
    using isDbsCacheUnstable_stable_iff [of example_watcher "[example_db ''c1'' ''100'']"] c a
    by blast
  then have "fmlookup (dbRVs example_watcher) = map_of (relisted [example_db ''c1'' ''100''])"
    using isDbsCacheUnstable_stable_iff [of example_watcher "[example_db ''c1'' ''100'']"] d
    by blast
  moreover have "fmlookup (dbRVs example_watcher) ''c1'' = Some ''100''"
    by (simp add: example_watcher_def)
  ultimately show ?thesis using d s by blast
qed

section \<open>Properties of the bounded polls\<close>

lemma retry_loop_error_iff:
  "(fst (retry_loop iv m n f s tr) \<noteq> None) = (\<forall>j<n. \<not> succeeds (attempt iv f s tr j))"
proof (induction n arbitrary: s tr)
  case 0
  then show ?case by simp
next
  case (Suc n)
  obtain r s' tr' where f: "f s tr = (r, s', tr')" by (cases "f s tr") auto
  show ?case
  proof (cases "r = (True, None)")
    case True
    then have "fst (retry_loop iv m (Suc n) f s tr) = None" using f by simp
    moreover have "succeeds (attempt iv f s tr 0)" using f True by (simp add: succeeds_def)
    ultimately show ?thesis by auto
  next
    case False
    show ?thesis
    proof (cases "n = 0")
      case True
      then show ?thesis using f False
        by (auto simp: succeeds_def split: prod.splits bool.splits option.splits)
    next
      case n: False
      have "retry_loop iv m (Suc n) f s tr = retry_loop iv m n f s' (tr' @ [Sleep iv])"
        using f False n by (auto split: prod.splits bool.splits option.splits)
      then have "(fst (retry_loop iv m (Suc n) f s tr) \<noteq> None) =
          (\<forall>j<n. \<not> succeeds (attempt iv f s' (tr' @ [Sleep iv]) j))"
        using Suc.IH by simp
      also have "\<dots> = (\<forall>j<Suc n. \<not> succeeds (attempt iv f s tr j))"
      proof
        assume a: "\<forall>j<n. \<not> succeeds (attempt iv f s' (tr' @ [Sleep iv]) j)"
        show "\<forall>j<Suc n. \<not> succeeds (attempt iv f s tr j)"
        proof (intro allI impI)
          fix j assume "j < Suc n"
          then show "\<not> succeeds (attempt iv f s tr j)"
            using a f False by (cases j) (auto simp: succeeds_def)
        qed
      next
        assume a: "\<forall>j<Suc n. \<not> succeeds (attempt iv f s tr j)"
        show "\<forall>j<n. \<not> succeeds (attempt iv f s' (tr' @ [Sleep iv]) j)"
        proof (intro allI impI)
          fix j assume "j < n"
          then have "\<not> succeeds (attempt iv f s tr (Suc j))" using a by blast
          then show "\<not> succeeds (attempt iv f s' (tr' @ [Sleep iv]) j)" using f by simp
        qed
      qed
      finally show ?thesis .
    qed
  qed
qed

lemma retry_loop_error_value:
  "fst (retry_loop iv m n f s tr) = None \<or> fst (retry_loop iv m n f s tr) = Some (RetryError m)"
proof (induction n arbitrary: s tr)
  case 0
  then show ?case by simp
next
  case (Suc n)
  obtain r s' tr' where f: "f s tr = (r, s', tr')" by (cases "f s tr") auto
  show ?case using f Suc.IH [of s' "tr' @ [Sleep iv]"]
    by (auto split: prod.splits bool.splits option.splits)
qed


lemma retry_loop_polls:
  assumes once: "\<And>s tr. \<exists>sfx. snd (snd (f s tr)) = tr @ sfx \<and> length (filter P sfx) = 1 \<and> Sleep iv \<notin> set sfx"
    and nP: "\<not> P (Sleep iv)"
  shows "\<exists>sfx. snd (snd (retry_loop iv m n f s tr)) = tr @ sfx \<and>
           length (filter P sfx) \<le> n \<and>
           (fst (retry_loop iv m n f s tr) \<noteq> None \<longrightarrow>
              length (filter P sfx) = n \<and> count_list sfx (Sleep iv) = n - 1)"
proof (induction n arbitrary: s tr)
  case 0
  then show ?case by simp
next
  case (Suc n)
  obtain r s' tr' where f: "f s tr = (r, s', tr')" by (cases "f s tr") auto
  from once [of s tr] f obtain sfx where
    sfx: "tr' = tr @ sfx" "length (filter P sfx) = 1" "Sleep iv \<notin> set sfx"
    by auto
  have c0: "count_list sfx (Sleep iv) = 0" using sfx(3) by (simp add: count_list_0_iff)
  show ?case
  proof (cases "r = (True, None)")
    case True
    then have "retry_loop iv m (Suc n) f s tr = (None, s', tr')" using f by simp
    then show ?thesis using sfx by auto
  next
    case False
    show ?thesis
    proof (cases "n = 0")
      case True
      then have "retry_loop iv m (Suc n) f s tr = (Some (RetryError m), s', tr')"
        using f False by (auto split: prod.splits bool.splits option.splits)
      then show ?thesis using sfx True c0 by auto
    next
      case n: False
      have eq: "retry_loop iv m (Suc n) f s tr = retry_loop iv m n f s' (tr' @ [Sleep iv])"
        using f False n by (auto split: prod.splits bool.splits option.splits)
      from Suc.IH [of s' "tr' @ [Sleep iv]"] obtain sfx' where
        s': "snd (snd (retry_loop iv m n f s' (tr' @ [Sleep iv]))) = (tr' @ [Sleep iv]) @ sfx'"
            "length (filter P sfx') \<le> n"
            "fst (retry_loop iv m n f s' (tr' @ [Sleep iv])) \<noteq> None \<longrightarrow>
               length (filter P sfx') = n \<and> count_list sfx' (Sleep iv) = n - 1"
        by blast
      let ?all = "sfx @ [Sleep iv] @ sfx'"
      have 1: "snd (snd (retry_loop iv m (Suc n) f s tr)) = tr @ ?all"
        using eq s'(1) sfx(1) by simp
      have 2: "length (filter P ?all) = 1 + length (filter P sfx')"
        using sfx(2) nP by simp
      have 3: "count_list ?all (Sleep iv) = 1 + count_list sfx' (Sleep iv)"
        using c0 by simp
      have "length (filter P ?all) \<le> Suc n" using 2 s'(2) by simp
      moreover have "fst (retry_loop iv m (Suc n) f s tr) \<noteq> None \<longrightarrow>
               length (filter P ?all) = Suc n \<and> count_list ?all (Sleep iv) = Suc n - 1"
        using eq s'(3) 2 3 n by auto
      ultimately show ?thesis using 1 by blast
    qed
  qed
qed

lemma Retry_bounded_poll:
  assumes once: "\<And>s tr. \<exists>sfx. snd (snd (f s tr)) = tr @ sfx \<and> length (filter P sfx) = 1 \<and> Sleep iv \<notin> set sfx"
    and nP: "\<not> P (Sleep iv)"
  shows "bounded_poll iv m P f s tr (fst (Retry iv m f s tr)) (snd (snd (Retry iv m f s tr)))"
proof -
  have 1: "(fst (Retry iv m f s tr) = None) = (\<exists>j<nat m. succeeds (attempt iv f s tr j))"
    using retry_loop_error_iff [of iv m "nat m" f s tr] by (auto simp: Retry_def)
  have 2: "fst (Retry iv m f s tr) = None \<or> fst (Retry iv m f s tr) = Some (RetryError m)"
    using retry_loop_error_value [of iv m "nat m" f s tr] by (simp add: Retry_def)
  have 3: "\<exists>sfx. snd (snd (Retry iv m f s tr)) = tr @ sfx \<and>
           length (filter P sfx) \<le> nat m \<and>
           (fst (Retry iv m f s tr) \<noteq> None \<longrightarrow>
              length (filter P sfx) = nat m \<and> count_list sfx (Sleep iv) = nat m - 1)"
    using retry_loop_polls [of f P iv m "nat m" s tr, OF once nP] by (simp add: Retry_def)
  show ?thesis unfolding bounded_poll_def using 1 2 3 by blast
qed

lemma waitForOk_condition_once:
  "\<exists>sfx. snd (snd (waitForOk_condition k u db tr)) = tr @ sfx \<and>
         length (filter is_GetPods sfx) = 1 \<and> Sleep iv \<notin> set sfx"
  by (auto simp: waitForOk_condition_def syncMembers_def Let_def
           split: sum.splits option.splits prod.splits)

lemma job_condition_once:
  "\<exists>sfx. snd (snd (job_condition k n j tr)) = tr @ sfx \<and>
         length (filter is_JobsGet sfx) = 1 \<and> Sleep iv \<notin> set sfx"
  by (auto simp: job_condition_def split: sum.splits)

lemma waitForOk_condition_success:
  assumes "succeeds (waitForOk_condition k u d t)"
  shows "\<exists>pods names.
           getPods k t (GetName d) ''tidb'' = Inr pods \<and>
           of_nat (length (filter (IsPodOk k) pods)) = Replicas (Tidb d) \<and>
           httpGet k (t @ [GetPods (GetName d) ''tidb'']) u (2 * Second) = None \<and>
           listPodNames k (t @ [GetPods (GetName d) ''tidb'', HttpGet u (2 * Second)])
             (GetName d) ''tidb'' = Inr names \<and>
           fst (snd (waitForOk_condition k u d t)) = d\<lparr>Tidb := (Tidb d)\<lparr>Members := names\<rparr>\<rparr>"
  using assms
  by (auto simp: succeeds_def waitForOk_condition_def syncMembers_def Let_def
           split: sum.splits option.splits prod.splits if_splits)

lemma waitForOk_bounded_poll:
  assumes "OuterStatusAddresses (Status db) = a # as"
  shows "\<exists>err. fst (waitForOk k db tr) = result_of err \<and>
           bounded_poll (3 * Second) (waitTidbComponentAvailableTimeout k sdiv (3 * Second))
             is_GetPods (waitForOk_condition k (sURL (cur (Tidb db)) a)) db tr
             err (snd (snd (waitForOk k db tr)))"
proof -
  let ?R = "Retry (3 * Second) (waitTidbComponentAvailableTimeout k sdiv (3 * Second))
              (waitForOk_condition k (sURL (cur (Tidb db)) a)) db tr"
  have w: "waitForOk k db tr = (result_of (fst ?R), fst (snd ?R), snd (snd ?R))"
    using assms by (simp add: waitForOk_def Let_def split: prod.splits)
  have "bounded_poll (3 * Second) (waitTidbComponentAvailableTimeout k sdiv (3 * Second))
             is_GetPods (waitForOk_condition k (sURL (cur (Tidb db)) a)) db tr
             (fst ?R) (snd (snd ?R))"
    by (rule Retry_bounded_poll [OF waitForOk_condition_once]) simp
  then show ?thesis using w by auto
qed

lemma CreateAndWaitJob_bounded_poll:
  assumes "jobsCreate k tr job = Inr retjob"
  shows "bounded_poll Second (timeout sdiv Second) is_JobsGet (job_condition k (JobName job))
           retjob (tr @ [JobsCreate job])
           (snd (fst (CreateAndWaitJob k job timeout tr))) (snd (CreateAndWaitJob k job timeout tr))"
proof -
  let ?R = "Retry Second (timeout sdiv Second) (job_condition k (JobName job)) retjob (tr @ [JobsCreate job])"
  have w: "CreateAndWaitJob k job timeout tr = ((Some (fst (snd ?R)), fst ?R), snd (snd ?R))"
    using assms by (simp add: CreateAndWaitJob_def Let_def split: prod.splits)
  have "bounded_poll Second (timeout sdiv Second) is_JobsGet (job_condition k (JobName job))
           retjob (tr @ [JobsCreate job]) (fst ?R) (snd (snd ?R))"
    by (rule Retry_bounded_poll [OF job_condition_once]) simp
  then show ?thesis using w by simp
qed


text \<open>
  Claim C7. The health gate and the wait for a started job are bounded polls: the gate
  polls every 3 seconds, the job wait every second, each
  \<open>int(timeout/interval)\<close> times at most; a failing attempt is followed by the next one;
  the operation returns an error exactly when no attempt succeeds, after exactly that
  many polls. An attempt of the health gate succeeds only when the number of healthy pods
  equals the desired replica count and the status URL answers, and it then sets the member
  list to the names of the live pods.
\<close>

theorem bounded_polling:
  assumes "OuterStatusAddresses (Status db) = a # as"
    and "jobsCreate k jtr job = Inr retjob"
  shows "(\<exists>err. fst (waitForOk k db tr) = result_of err \<and>
            bounded_poll (3 * Second) (waitTidbComponentAvailableTimeout k sdiv (3 * Second))
              is_GetPods (waitForOk_condition k (sURL (cur (Tidb db)) a)) db tr
              err (snd (snd (waitForOk k db tr)))) \<and>
         bounded_poll Second (timeout sdiv Second) is_JobsGet (job_condition k (JobName job))
           retjob (jtr @ [JobsCreate job])
           (snd (fst (CreateAndWaitJob k job timeout jtr))) (snd (CreateAndWaitJob k job timeout jtr)) \<and>
         (\<forall>u d t. succeeds (waitForOk_condition k u d t) \<longrightarrow>
            (\<exists>pods names.
               getPods k t (GetName d) ''tidb'' = Inr pods \<and>
               of_nat (length (filter (IsPodOk k) pods)) = Replicas (Tidb d) \<and>
               httpGet k (t @ [GetPods (GetName d) ''tidb'']) u (2 * Second) = None \<and>
               listPodNames k (t @ [GetPods (GetName d) ''tidb'', HttpGet u (2 * Second)])
                 (GetName d) ''tidb'' = Inr names \<and>
               fst (snd (waitForOk_condition k u d t)) = d\<lparr>Tidb := (Tidb d)\<lparr>Members := names\<rparr>\<rparr>))"
  using waitForOk_bounded_poll [OF assms(1)] CreateAndWaitJob_bounded_poll [OF assms(2)]
    waitForOk_condition_success
  by blast

theorem bounded_polling_witness:
  "OuterStatusAddresses (Status (example_db ''c1'' ''100'')) = [''10.0.0.1:30080''] \<and>
   jobsCreate example_env [] example_job = Inr example_job \<and>
   fst (waitForOk example_env (example_db ''c1'' ''100'') []) = OK \<and>
   snd (fst (CreateAndWaitJob example_env example_job (5 * Second) [])) = None"
proof -
  let ?db = "example_db ''c1'' ''100''"
  let ?f = "waitForOk_condition example_env (sURL (cur (Tidb ?db)) ''10.0.0.1:30080'')"
  let ?g = "job_condition example_env (JobName example_job)"
  have h1: "OuterStatusAddresses (Status ?db) = [''10.0.0.1:30080'']"
    by (simp add: example_db_def)
  have h2: "jobsCreate example_env [] example_job = Inr example_job"
    by (simp add: example_env_def)
  note t = bounded_polling [OF h1 h2, of "[]" "5 * Second"]
  have n: "nat (waitTidbComponentAvailableTimeout example_env sdiv (3 * Second)) = 3"
    by (simp add: example_env_def Second_def signed_divide_int_def)
  have "succeeds (attempt (3 * Second) ?f ?db [] 0)"
    by (simp add: succeeds_def waitForOk_condition_def syncMembers_def example_env_def
        example_db_def example_pods_def GetName_def Let_def)
  then have a: "\<exists>j<nat (waitTidbComponentAvailableTimeout example_env sdiv (3 * Second)).
      succeeds (attempt (3 * Second) ?f ?db [] j)"
    unfolding n by (intro exI [of _ 0]) simp
  from t obtain err where
    e: "fst (waitForOk example_env ?db []) = result_of err"
       "bounded_poll (3 * Second) (waitTidbComponentAvailableTimeout example_env sdiv (3 * Second))
          is_GetPods ?f ?db [] err (snd (snd (waitForOk example_env ?db [])))"
    by blast
  from e(2) a have "err = None" unfolding bounded_poll_def by blast
  with e(1) have 1: "fst (waitForOk example_env ?db []) = OK" by simp
  have m: "nat (5 * Second sdiv Second) = 5"
    by (simp add: Second_def signed_divide_int_def)
  have "succeeds (attempt Second ?g example_job ([] @ [JobsCreate example_job]) 0)"
    by (simp add: succeeds_def job_condition_def example_env_def example_job_def)
  then have b: "\<exists>j<nat (5 * Second sdiv Second).
      succeeds (attempt Second ?g example_job ([] @ [JobsCreate example_job]) j)"
    unfolding m by (intro exI [of _ 0]) simp
  from t have "bounded_poll Second (5 * Second sdiv Second) is_JobsGet ?g example_job
      ([] @ [JobsCreate example_job])
      (snd (fst (CreateAndWaitJob example_env example_job (5 * Second) [])))
      (snd (CreateAndWaitJob example_env example_job (5 * Second) []))"
    by blast
  with b have 2: "snd (fst (CreateAndWaitJob example_env example_job (5 * Second) [])) = None"
    unfolding bounded_poll_def by blast
  show ?thesis using h1 h2 1 2 by blast
qed

section \<open>Properties of the event handler and of \<open>upgrade\<close> before the frontend has started\<close>

text \<open>
  Claim C9. When the phase of the cluster is earlier than \<open>PhaseTidbStarted\<close>,
  \<open>upgrade\<close> returns \<open>ErrUnavailable\<close>. The only actions are the two of the audit event,
  which records the error: the image of the workload controller is not updated and no pod
  is deleted.
\<close>

theorem upgrade_unavailable:
  assumes "Phase (Status db) < PhaseTidbStarted k"
  shows "upgrade k db tr =
           (Fail ErrUnavailable,
            db\<lparr>Tidb := (Tidb db)\<lparr>cur := []\<rparr>\<rparr>,
            tr @ [NewEvent (GetName db) ''tidb/tidb'' ''upgrate'',
                  EventTrace (GetName db) ''tidb/tidb'' ''upgrate'' (Some ErrUnavailable)
                    (''Upgrate tidb to version: %s'', [S (Version (Tidb db))])])"
  using assms by (simp add: upgrade_def upgrade_body_def Let_def)

theorem upgrade_unavailable_witness:
  "Phase (Status pending_db) < PhaseTidbStarted example_env \<and>
   upgrade example_env pending_db [] =
     (Fail ErrUnavailable, pending_db,
      [NewEvent ''c1'' ''tidb/tidb'' ''upgrate'',
       EventTrace ''c1'' ''tidb/tidb'' ''upgrate'' (Some ErrUnavailable)
         (''Upgrate tidb to version: %s'', [S ''v2''])])"
proof -
  have h: "Phase (Status pending_db) < PhaseTidbStarted example_env"
    by (simp add: pending_db_def example_env_def)
  show ?thesis
    using h upgrade_unavailable [OF h, of "[]"]
    by (simp add: pending_db_def example_db_def GetName_def)
qed

text \<open>
  Claim C2. For a Modified or Deleted event whose cluster name is not in the cluster map,
  the handler returns the "unsafe state" error and leaves the watcher (both maps) and the
  trace as they were; the dispatcher logs the error and goes on with the events that
  follow.
\<close>

theorem handleTidbEvent_unknown_name:
  assumes "Type event = Modified \<or> Type event = Deleted"
    and "fmlookup (dbs w) (GetName (AfterPropertiesSet k (Object event))) = None"
  shows "handleTidbEvent k event w tr = (Some (unsafe_state (Type event)), w, tr) \<and>
         dispatch_all k (event # evs) w tr =
           dispatch_all k evs w (tr @ [LogWarn (unsafe_state (Type event))])"
  using assms by (auto simp: handleTidbEvent_def dispatch_def Let_def)

theorem handleTidbEvent_unknown_name_witness:
  "(Type modified_c9 = Modified \<or> Type modified_c9 = Deleted) \<and>
   fmlookup (dbs example_watcher) (GetName (AfterPropertiesSet example_env (Object modified_c9))) = None \<and>
   handleTidbEvent example_env modified_c9 example_watcher [] =
     (Some (unsafe_state Modified), example_watcher, []) \<and>
   dispatch_all example_env [modified_c9, deleted_c1] example_watcher [] =
     dispatch_all example_env [deleted_c1] example_watcher [LogWarn (unsafe_state Modified)]"
proof -
  have h1: "Type modified_c9 = Modified \<or> Type modified_c9 = Deleted"
    by (simp add: modified_c9_def)
  have h2: "fmlookup (dbs example_watcher)
      (GetName (AfterPropertiesSet example_env (Object modified_c9))) = None"
    by (simp add: modified_c9_def example_env_def example_watcher_def example_db_def GetName_def)
  have t: "Type modified_c9 = Modified"
    by (simp add: modified_c9_def)
  show ?thesis
    using h1 h2 handleTidbEvent_unknown_name [OF h1 h2, of "[]" "[deleted_c1]"]
    unfolding t by simp
qed

lemma handleTidbEvent_Deleted_tracked:
  assumes "Type event = Deleted"
    and "fmlookup (dbs w) (GetName (AfterPropertiesSet k (Object event))) \<noteq> None"
  shows "handleTidbEvent k event w tr =
           (gc k tr None None (pvProvisioner w),
            w\<lparr>dbs := fmdrop (GetName (AfterPropertiesSet k (Object event))) (dbs w),
              dbRVs := fmdrop (GetName (AfterPropertiesSet k (Object event))) (dbRVs w)\<rparr>,
            tr @ [Gc None None (pvProvisioner w)])"
  using assms by (simp add: handleTidbEvent_def Let_def)

text \<open>
  Claim C8. A Deleted event for the tracked cluster \<open>c1\<close>: the handler removes the
  cluster from both maps, and then calls \<open>gc\<close> with \<open>nil\<close> for the cluster as well as
  for the target, because it reads the cluster from the map after deleting it there.
\<close>

theorem handleTidbEvent_Deleted_gc_call:
  "handleTidbEvent example_env deleted_c1 example_watcher [] =
     (None,
      example_watcher\<lparr>dbs := fmempty, dbRVs := fmempty\<rparr>,
      [Gc None None (Some NilPVProvisioner)])"
  by (simp add: handleTidbEvent_def deleted_c1_def example_env_def example_watcher_def example_db_def GetName_def Let_def fmdrop_fmupd_same)

section \<open>Properties of the health gate's trace\<close>

lemma retry_loop_invariant:
  assumes step: "\<And>s tr. I s \<Longrightarrow>
            I (fst (snd (f s tr))) \<and> (\<exists>g. snd (snd (f s tr)) = tr @ g \<and> list_all Q g)"
    and sl: "Q (Sleep iv)"
    and init: "I s"
  shows "I (fst (snd (retry_loop iv m n f s tr))) \<and>
         (\<exists>g. snd (snd (retry_loop iv m n f s tr)) = tr @ g \<and> list_all Q g)"
  using init
proof (induction n arbitrary: s tr)
  case 0
  then show ?case by simp
next
  case (Suc n)
  obtain r s' tr' where f: "f s tr = (r, s', tr')" by (cases "f s tr") auto
  from step [OF Suc.prems, of tr] f obtain g where
    g: "I s'" "tr' = tr @ g" "list_all Q g" by auto
  show ?case
  proof (cases "r = (True, None) \<or> n = 0")
    case True
    then have "retry_loop iv m (Suc n) f s tr = (None, s', tr') \<or>
               retry_loop iv m (Suc n) f s tr = (Some (RetryError m), s', tr')"
      using f by (auto split: prod.splits bool.splits option.splits)
    then show ?thesis using g by auto
  next
    case False
    then have eq: "retry_loop iv m (Suc n) f s tr = retry_loop iv m n f s' (tr' @ [Sleep iv])"
      using f by (auto split: prod.splits bool.splits option.splits)
    from Suc.IH [OF g(1), of "tr' @ [Sleep iv]"] obtain g' where
      g': "I (fst (snd (retry_loop iv m n f s' (tr' @ [Sleep iv]))))"
          "snd (snd (retry_loop iv m n f s' (tr' @ [Sleep iv]))) = (tr' @ [Sleep iv]) @ g'"
          "list_all Q g'"
      by blast
    have "snd (snd (retry_loop iv m (Suc n) f s tr)) = tr @ (g @ [Sleep iv] @ g')"
      using eq g'(2) g(2) by simp
    moreover have "list_all Q (g @ [Sleep iv] @ g')"
      using g(3) g'(3) sl by simp
    ultimately show ?thesis using eq g'(1) by metis
  qed
qed

lemma members_only_refl: "members_only db db"
  by (auto simp: members_only_def intro: exI [of _ "Members (Tidb db)"])

lemma waitForOk_condition_gate:
  assumes "members_only db s"
  shows "members_only db (fst (snd (waitForOk_condition k u s tr))) \<and>
         (\<exists>g. snd (snd (waitForOk_condition k u s tr)) = tr @ g \<and>
              list_all (gate_action (GetName db) u) g)"
proof -
  from assms obtain ms where s: "s = db\<lparr>Tidb := (Tidb db)\<lparr>Members := ms\<rparr>\<rparr>"
    by (auto simp: members_only_def)
  have n: "GetName s = GetName db" by (simp add: s GetName_def)
  show ?thesis
    using n
    by (auto simp: waitForOk_condition_def syncMembers_def Let_def members_only_def s
             split: sum.splits option.splits prod.splits)
qed

lemma waitForOk_gate:
  "members_only db (fst (snd (waitForOk k db tr))) \<and>
   (\<exists>g. snd (snd (waitForOk k db tr)) = tr @ g \<and>
        list_all (gate_action (GetName db) (sURL (cur (Tidb db)) (first_address db))) g)"
proof (cases "OuterStatusAddresses (Status db)")
  case Nil
  then show ?thesis by (simp add: waitForOk_def members_only_refl)
next
  case (Cons a as)
  let ?u = "sURL (cur (Tidb db)) a"
  let ?R = "retry_loop (3 * Second) (waitTidbComponentAvailableTimeout k sdiv (3 * Second))
              (nat (waitTidbComponentAvailableTimeout k sdiv (3 * Second)))
              (waitForOk_condition k ?u) db tr"
  have w: "waitForOk k db tr = (result_of (fst ?R), fst (snd ?R), snd (snd ?R))"
    using Cons by (simp add: waitForOk_def Retry_def Let_def split: prod.splits)
  have fa: "first_address db = a" using Cons by (simp add: first_address_def)
  have "members_only db (fst (snd ?R)) \<and>
        (\<exists>g. snd (snd ?R) = tr @ g \<and> list_all (gate_action (GetName db) ?u) g)"
    by (rule retry_loop_invariant [where I = "members_only db"])
       (auto simp: waitForOk_condition_gate members_only_refl)
  then show ?thesis using w fa by simp
qed





section \<open>Properties of the scale request\<close>

lemma scale_calls_append: "scale_calls (xs @ ys) = scale_calls xs @ scale_calls ys"
  by (induction xs rule: scale_calls.induct) auto

lemma gate_scale_calls: "list_all (gate_action cell url) g \<Longrightarrow> scale_calls g = []"
proof (induction g)
  case Nil
  then show ?case by simp
next
  case (Cons x g)
  then show ?case by (cases x) auto
qed

lemma checkStatus_pods_scale_calls:
  "scale_calls (snd (checkStatus_pods k pods tr)) = scale_calls tr"
  by (induction pods arbitrary: tr) (auto simp: scale_calls_append split: option.splits)

lemma checkStatus_scale_calls: "scale_calls (snd (checkStatus k db tr)) = scale_calls tr"
  by (auto simp: checkStatus_def checkStatus_pods_scale_calls scale_calls_append split: sum.splits)

lemma scale_checks_None: "(scale_checks mx c r = None) = (\<not> scale_rejection mx c r)"
  by (simp add: scale_checks_def scale_rejection_def)

lemma sint_times3_bounded:
  fixes x :: go_int
  assumes "- (2 ^ 63) \<le> sint x * 3" "sint x * 3 < 2 ^ 63"
  shows "sint (x * 3) = sint x * 3"
proof -
  have "sint (x * 3) = signed_take_bit 63 (sint x * 3)"
    by (simp add: sint_word_ariths)
  also have "\<dots> = sint x * 3"
    using assms by (intro signed_take_bit_int_eq_self) auto
  finally show ?thesis .
qed

lemma sint_times3:
  assumes "small c"
  shows "sint (c * 3) = sint c * 3"
  by (rule sint_times3_bounded) (use assms in \<open>auto simp: small_def\<close>)

lemma sint_diff_times3:
  assumes "small c" "small r"
  shows "sint ((c - r) * 3) = (sint c - sint r) * 3"
proof -
  have d: "sint (c - r) = sint c - sint r"
  proof -
    have "sint (c - r) = signed_take_bit 63 (sint c - sint r)"
      by (simp add: sint_word_ariths)
    also have "\<dots> = sint c - sint r"
      using assms by (intro signed_take_bit_int_eq_self) (auto simp: small_def)
    finally show ?thesis .
  qed
  have "sint ((c - r) * 3) = sint (c - r) * 3"
    by (rule sint_times3_bounded) (use assms d in \<open>auto simp: small_def\<close>)
  then show ?thesis using d by simp
qed

lemma scale_rejection_int:
  assumes "small c" "small r"
  shows "scale_rejection mx c r =
           (sint mx < sint r \<or> sint r < 2 \<or> sint c * 3 < sint r \<or> sint c < (sint c - sint r) * 3)"
  using sint_times3 [OF assms(1)] sint_diff_times3 [OF assms]
  by (simp add: scale_rejection_def word_sless_alt)

lemma reconcile_body_rejected:
  assumes "scale_rejection (getCachedMetadataTidbMax k tr) (Replicas (Tidb db)) r"
  shows "reconcile_body k r db tr =
           (Fail (the (scale_checks (getCachedMetadataTidbMax k tr) (Replicas (Tidb db)) r)), db, tr)"
  using assms scale_checks_None [of "getCachedMetadataTidbMax k tr" "Replicas (Tidb db)" r]
  by (auto simp: reconcile_body_def split: option.splits)

lemma reconcile_body_accepted:
  assumes "\<not> scale_rejection (getCachedMetadataTidbMax k tr) (Replicas (Tidb db)) r"
  shows "\<exists>res db' rest.
           reconcile_body k r db tr =
             (res, db', tr @ [ScaleReplicationController (''tidb-'' @ GetName db) r] @ rest) \<and>
           Replicas (Tidb db') = r \<and> GetName db' = GetName db \<and> Status db' = Status db \<and>
           scale_calls rest = []"
proof -
  let ?db = "db\<lparr>Tidb := (Tidb db)\<lparr>Replicas := r\<rparr>\<rparr>"
  let ?tr = "tr @ [ScaleReplicationController (''tidb-'' @ GetName db) r]"
  have n: "scale_checks (getCachedMetadataTidbMax k tr) (Replicas (Tidb db)) r = None"
    using assms by (simp add: scale_checks_None)
  show ?thesis
  proof (cases "scaleReplicationController k tr (''tidb-'' @ GetName db) r")
    case (Some err)
    then have "reconcile_body k r db tr = (Fail err, ?db, ?tr @ [])"
      using n by (simp add: reconcile_body_def Let_def)
    then show ?thesis by (auto simp: GetName_def)
  next
    case None
    then have b: "reconcile_body k r db tr = waitForOk k ?db ?tr"
      using n by (simp add: reconcile_body_def Let_def)
    from waitForOk_gate [of ?db k ?tr] obtain g where
      g: "members_only ?db (fst (snd (waitForOk k ?db ?tr)))"
         "snd (snd (waitForOk k ?db ?tr)) = ?tr @ g"
         "list_all (gate_action (GetName ?db) (sURL (cur (Tidb ?db)) (first_address ?db))) g"
      by blast
    obtain res db' where w: "waitForOk k ?db ?tr = (res, db', ?tr @ g)"
      using g(2) by (cases "waitForOk k ?db ?tr") auto
    have "Replicas (Tidb db') = r \<and> GetName db' = GetName db \<and> Status db' = Status db"
      using g(1) w by (auto simp: members_only_def GetName_def)
    moreover have "scale_calls g = []" by (rule gate_scale_calls [OF g(3)])
    ultimately show ?thesis using b w by auto
  qed
qed

text \<open>
  Claim C3. A scale request for \<open>r\<close> replicas against a role at \<open>c\<close> replicas.
  When \<open>r < 1\<close> or \<open>r = c\<close>, only \<open>checkStatus\<close> runs: the cluster record is
  unchanged and there is no scale call. Otherwise the request is rejected, with the
  replica count unchanged and no scale call, exactly when \<open>r\<close> exceeds the maximum, or
  \<open>r < 2\<close>, or \<open>r > c * 3\<close>, or \<open>(c - r) * 3 > c\<close>; the error returned is that of the
  first of these checks that fails, in this order; the only actions are those of the audit
  event. Every other request sets the replica count to \<open>r\<close> and makes exactly one scale
  call, with \<open>r\<close>; the count is \<open>r\<close> also when that call fails, so it was set before
  the call. The comparisons are those of Go's 64-bit \<open>int\<close>; for counts below \<open>2^60\<close> in
  absolute value they are the comparisons of the integers.
\<close>

theorem reconcileTidbs_validation:
  assumes "reconcileTidbs k r db tr = (res, db', tr')"
  shows "(r <s 1 \<or> r = Replicas (Tidb db) \<longrightarrow>
            db' = db \<and> res = result_of (fst (checkStatus k db tr)) \<and>
            tr' = snd (checkStatus k db tr) \<and> scale_calls tr' = scale_calls tr) \<and>
         (\<not> (r <s 1 \<or> r = Replicas (Tidb db)) \<longrightarrow>
            (let c = Replicas (Tidb db);
                 ev = NewEvent (GetName db) ''tidb/tidb'' ''scale'';
                 mx = getCachedMetadataTidbMax k (tr @ [ev])
             in ((Replicas (Tidb db') = c \<and> scale_calls tr' = scale_calls tr) =
                   scale_rejection mx c r) \<and>
                (scale_rejection mx c r \<longrightarrow>
                   tr' = tr @ [ev, scale_audit db r res] \<and>
                   (mx <s r \<longrightarrow>
                      res = Fail (Errorf ''the replicas of tidb exceeds max %d'' [D mx])) \<and>
                   (\<not> mx <s r \<and> r <s 2 \<longrightarrow>
                      res = Fail (Errorf ''replicas must be greater than 2'' [])) \<and>
                   (\<not> mx <s r \<and> \<not> r <s 2 \<and> c * 3 <s r \<longrightarrow>
                      res = Fail (Errorf ''each scale out can not more then 2 times'' [])) \<and>
                   (\<not> mx <s r \<and> \<not> r <s 2 \<and> \<not> c * 3 <s r \<and> c <s (c - r) * 3 \<longrightarrow>
                      res = Fail (Errorf ''each scale dowm can not be less than one-third'' []))) \<and>
                (\<not> scale_rejection mx c r \<longrightarrow>
                   Replicas (Tidb db') = r \<and> scale_calls tr' = scale_calls tr @ [r] \<and>
                   (\<exists>rest. tr' = tr @ [ev, ScaleReplicationController (''tidb-'' @ GetName db) r]
                                  @ rest @ [scale_audit db r res] \<and>
                           scale_calls rest = [])) \<and>
                (small c \<and> small r \<longrightarrow>
                   scale_rejection mx c r =
                     (sint mx < sint r \<or> sint r < 2 \<or> sint c * 3 < sint r \<or>
                      sint c < (sint c - sint r) * 3))))"
proof (cases "r <s 1 \<or> r = Replicas (Tidb db)")
  case True
  then show ?thesis
    using assms checkStatus_scale_calls [of k db tr]
    by (auto simp: reconcileTidbs_def split: prod.splits)
next
  case noop: False
  let ?c = "Replicas (Tidb db)"
  let ?ev = "NewEvent (GetName db) ''tidb/tidb'' ''scale''"
  let ?mx = "getCachedMetadataTidbMax k (tr @ [?ev])"
  have rc: "r \<noteq> ?c" using noop by simp
  have int: "small ?c \<and> small r \<longrightarrow>
                   scale_rejection ?mx ?c r =
                     (sint ?mx < sint r \<or> sint r < 2 \<or> sint ?c * 3 < sint r \<or>
                      sint ?c < (sint ?c - sint r) * 3)"
    using scale_rejection_int by blast
  show ?thesis
  proof (cases "scale_rejection ?mx ?c r")
    case rej: True
    from reconcile_body_rejected [OF rej]
    have b: "reconcile_body k r db (tr @ [?ev]) =
        (Fail (the (scale_checks ?mx ?c r)), db, tr @ [?ev])" .
    have res: "res = Fail (the (scale_checks ?mx ?c r))"
      and tr': "tr' = tr @ [?ev, scale_audit db r res]"
      and db': "Replicas (Tidb db') = ?c"
      using assms noop b by (auto simp: reconcileTidbs_def Let_def scale_audit_def)
    have sc: "scale_calls tr' = scale_calls tr"
      unfolding tr' by (simp add: scale_calls_append scale_audit_def)
    have order:
      "(?mx <s r \<longrightarrow> res = Fail (Errorf ''the replicas of tidb exceeds max %d'' [D ?mx])) \<and>
       (\<not> ?mx <s r \<and> r <s 2 \<longrightarrow> res = Fail (Errorf ''replicas must be greater than 2'' [])) \<and>
       (\<not> ?mx <s r \<and> \<not> r <s 2 \<and> ?c * 3 <s r \<longrightarrow>
          res = Fail (Errorf ''each scale out can not more then 2 times'' [])) \<and>
       (\<not> ?mx <s r \<and> \<not> r <s 2 \<and> \<not> ?c * 3 <s r \<and> ?c <s (?c - r) * 3 \<longrightarrow>
          res = Fail (Errorf ''each scale dowm can not be less than one-third'' []))"
      unfolding res by (simp add: scale_checks_def)
    show ?thesis
      using noop rej tr' db' sc order int unfolding Let_def by blast
  next
    case acc: False
    from reconcile_body_accepted [OF acc] obtain res0 db0 rest where
      b: "reconcile_body k r db (tr @ [?ev]) =
            (res0, db0, (tr @ [?ev]) @ [ScaleReplicationController (''tidb-'' @ GetName db) r] @ rest)"
         "Replicas (Tidb db0) = r" "GetName db0 = GetName db" "scale_calls rest = []"
      by blast
    have res: "res = res0"
      and tr': "tr' = tr @ [?ev, ScaleReplicationController (''tidb-'' @ GetName db) r]
                        @ rest @ [scale_audit db r res]"
      and db': "Replicas (Tidb db') = r"
      using assms noop b by (auto simp: reconcileTidbs_def Let_def scale_audit_def)
    have sc1: "scale_calls tr' = scale_calls tr @ [r]"
      unfolding tr' by (simp add: scale_calls_append b(4) scale_audit_def)
    then have sc: "scale_calls tr' \<noteq> scale_calls tr"
      by simp
    have ex: "\<exists>rest. tr' = tr @ [?ev, ScaleReplicationController (''tidb-'' @ GetName db) r]
                                  @ rest @ [scale_audit db r res] \<and> scale_calls rest = []"
      using tr' b(4) by blast
    show ?thesis
      using noop acc db' sc sc1 ex int rc unfolding Let_def by blast
  qed
qed

theorem reconcileTidbs_validation_witness:
  "scale_rejection 10 3 10 \<and>
   fst (reconcileTidbs example_env 10 (example_db ''c1'' ''100'') []) =
     Fail (Errorf ''each scale out can not more then 2 times'' []) \<and>
   Replicas (Tidb (fst (snd (reconcileTidbs example_env 10 (example_db ''c1'' ''100'') [])))) = 3 \<and>
   \<not> scale_rejection 10 3 5 \<and>
   Replicas (Tidb (fst (snd (reconcileTidbs example_env 5 (example_db ''c1'' ''100'') [])))) = 5 \<and>
   scale_calls (snd (snd (reconcileTidbs example_env 5 (example_db ''c1'' ''100'') []))) = [5]"
proof -
  let ?db = "example_db ''c1'' ''100''"
  let ?X = "reconcileTidbs example_env 10 ?db []"
  let ?Y = "reconcileTidbs example_env 5 ?db []"
  have c: "Replicas (Tidb ?db) = 3" by (simp add: example_db_def)
  have mx: "\<And>tr. getCachedMetadataTidbMax example_env tr = 10" by (simp add: example_env_def)
  have n10: "\<not> ((10::go_int) <s 1 \<or> 10 = Replicas (Tidb ?db))" by (simp add: c word_sless_alt)
  have n5: "\<not> ((5::go_int) <s 1 \<or> 5 = Replicas (Tidb ?db))" by (simp add: c word_sless_alt)
  have r10: "scale_rejection 10 3 10" by (simp add: scale_rejection_def word_sless_alt)
  have r5: "\<not> scale_rejection 10 3 5" by (simp add: scale_rejection_def word_sless_alt)
  have o10: "\<not> (10::go_int) <s 10 \<and> \<not> (10::go_int) <s 2 \<and> (3::go_int) * 3 <s 10" by (simp add: word_sless_alt)
  have hX: "?X = (fst ?X, fst (snd ?X), snd (snd ?X))" by simp
  have hY: "?Y = (fst ?Y, fst (snd ?Y), snd (snd ?Y))" by simp
  have 1: "fst ?X = Fail (Errorf ''each scale out can not more then 2 times'' []) \<and>
           Replicas (Tidb (fst (snd ?X))) = 3"
    using reconcileTidbs_validation [OF hX] n10 r10 o10 unfolding Let_def c mx by blast
  have 2: "Replicas (Tidb (fst (snd ?Y))) = 5 \<and> scale_calls (snd (snd ?Y)) = scale_calls [] @ [5]"
    using reconcileTidbs_validation [OF hY] n5 r5 unfolding Let_def c mx by blast
  show ?thesis using r10 r5 1 2 by simp
qed

section \<open>Properties of the rolling upgrade\<close>













text \<open>
  An upgrade whose first health gate never passes: after three polls \<open>upgrade\<close> returns
  the error of the retry, and the second pod that needs the new image is not deleted.
\<close>

lemma upgrade_abort_example:
  "upgrade unhealthy_env (example_db ''c1'' ''100'') [] =
     (Fail (RetryError 3), example_db ''c1'' ''100'',
      [NewEvent ''c1'' ''tidb/tidb'' ''upgrate'',
       UpgradeRC ''tidb-c1'' ''reg/tidb:v2'' ''v2'',
       GetPods ''c1'' ''tidb'',
       DeletePods ''tidb-c1-a'', Sleep (8 * Second),
       GetPods ''c1'' ''tidb'', Sleep (3 * Second),
       GetPods ''c1'' ''tidb'', Sleep (3 * Second),
       GetPods ''c1'' ''tidb'',
       EventTrace ''c1'' ''tidb/tidb'' ''upgrate'' (Some (RetryError 3))
         (''Upgrate tidb to version: %s'', [S ''v2''])])"
proof -
  have n: "waitTidbComponentAvailableTimeout unhealthy_env sdiv (3 * Second) = 3"
    by (simp add: unhealthy_env_def example_env_def Second_def signed_divide_int_def)
  have c: "\<And>u d t. GetName d = ''c1'' \<Longrightarrow> Replicas (Tidb d) = 3 \<Longrightarrow>
      waitForOk_condition unhealthy_env u d t = ((False, None), d, t @ [GetPods ''c1'' ''tidb''])"
    by (simp add: waitForOk_condition_def unhealthy_env_def example_env_def example_pods_def Let_def)
  have w: "\<And>c t. waitForOk unhealthy_env
        ((example_db ''c1'' ''100'')\<lparr>Tidb := (Tidb (example_db ''c1'' ''100''))\<lparr>cur := c\<rparr>\<rparr>) t =
      (Fail (RetryError 3),
       (example_db ''c1'' ''100'')\<lparr>Tidb := (Tidb (example_db ''c1'' ''100''))\<lparr>cur := c\<rparr>\<rparr>,
       t @ [GetPods ''c1'' ''tidb'', Sleep (3 * Second), GetPods ''c1'' ''tidb'',
            Sleep (3 * Second), GetPods ''c1'' ''tidb''])"
  proof -
    fix c t
    let ?d = "(example_db ''c1'' ''100'')\<lparr>Tidb := (Tidb (example_db ''c1'' ''100''))\<lparr>cur := c\<rparr>\<rparr>"
    have d: "GetName ?d = ''c1''" "Replicas (Tidb ?d) = 3"
      "OuterStatusAddresses (Status ?d) = [''10.0.0.1:30080'']"
      by (simp_all add: example_db_def GetName_def)
    have R: "\<And>u. Retry (3 * Second) 3 (waitForOk_condition unhealthy_env u) ?d t =
        (Some (RetryError 3), ?d,
         t @ [GetPods ''c1'' ''tidb'', Sleep (3 * Second), GetPods ''c1'' ''tidb'',
              Sleep (3 * Second), GetPods ''c1'' ''tidb''])"
      by (simp add: Retry_def numeral_3_eq_3 c [OF d(1,2)])
    show "waitForOk unhealthy_env ?d t =
      (Fail (RetryError 3), ?d,
       t @ [GetPods ''c1'' ''tidb'', Sleep (3 * Second), GetPods ''c1'' ''tidb'',
            Sleep (3 * Second), GetPods ''c1'' ''tidb''])"
      unfolding waitForOk_def d(3) by (simp only: list.case Let_def n R prod.case result_of.simps)
  qed
  have nu: "\<And>p v. needUpgrade unhealthy_env p v = (PodImage p \<noteq> ''reg/tidb:'' @ v)"
    by (simp add: unhealthy_env_def example_env_def)
  have misc: "\<And>tr n. deletePods unhealthy_env tr n = None"
    "\<And>tr a b c. upgradeRC unhealthy_env tr a b c = None"
    "\<And>tr a b. getPods unhealthy_env tr a b = Inr example_pods"
    "imageRegistry unhealthy_env = ''reg''" "PhaseTidbStarted unhealthy_env = 9"
    by (simp_all add: unhealthy_env_def example_env_def)
  have db: "Version (Tidb (example_db ''c1'' ''100'')) = ''v2''"
    "GetName (example_db ''c1'' ''100'') = ''c1''" "Phase (Status (example_db ''c1'' ''100'')) = 9"
    "cur (Tidb (example_db ''c1'' ''100'')) = []"
    by (simp_all add: example_db_def GetName_def)
  have id: "(example_db ''c1'' ''100'')\<lparr>Tidb := (Tidb (example_db ''c1'' ''100''))\<lparr>cur := []\<rparr>\<rparr> =
      example_db ''c1'' ''100''"
    by (simp add: example_db_def)
  show ?thesis
    by (simp add: upgrade_def upgrade_body_def Let_def misc db nu w example_pods_def id)
qed

section \<open>Properties of \<open>Run\<close>\<close>

lemma init_attempt_0: "init_attempt k w tr 0 = initResource k w tr"
  by (simp add: init_attempt_def)

lemma init_attempt_Suc:
  "initResource k w tr = (r, w', tr') \<Longrightarrow>
   init_attempt k w tr (Suc j) = init_attempt k w' (tr' @ [Sleep initRetryWaitTime]) j"
  by (simp add: init_attempt_def)

lemma first_success_0:
  "first_success k w tr 0 = (\<not> isl (fst (initResource k w tr)))"
  by (simp add: first_success_def init_attempt_0)

lemma first_success_Suc:
  assumes "initResource k w tr = (r, w', tr')"
  shows "first_success k w tr (Suc n) =
           (isl r \<and> first_success k w' (tr' @ [Sleep initRetryWaitTime]) n)"
proof -
  have a: "\<And>j. init_attempt k w tr (Suc j) = init_attempt k w' (tr' @ [Sleep initRetryWaitTime]) j"
    by (rule init_attempt_Suc [OF assms])
  have "(\<forall>j<Suc n. isl (fst (init_attempt k w tr j))) =
        (isl r \<and> (\<forall>j<n. isl (fst (init_attempt k w' (tr' @ [Sleep initRetryWaitTime]) j))))"
  proof
    assume h: "\<forall>j<Suc n. isl (fst (init_attempt k w tr j))"
    then have "isl (fst (init_attempt k w tr 0))" by blast
    then have "isl r" using assms by (simp add: init_attempt_0)
    moreover have "\<forall>j<n. isl (fst (init_attempt k w' (tr' @ [Sleep initRetryWaitTime]) j))"
    proof (intro allI impI)
      fix j assume "j < n"
      then have "isl (fst (init_attempt k w tr (Suc j)))" using h by simp
      then show "isl (fst (init_attempt k w' (tr' @ [Sleep initRetryWaitTime]) j))"
        by (simp add: a)
    qed
    ultimately show "isl r \<and> (\<forall>j<n. isl (fst (init_attempt k w' (tr' @ [Sleep initRetryWaitTime]) j)))"
      by simp
  next
    assume h: "isl r \<and> (\<forall>j<n. isl (fst (init_attempt k w' (tr' @ [Sleep initRetryWaitTime]) j)))"
    show "\<forall>j<Suc n. isl (fst (init_attempt k w tr j))"
    proof (intro allI impI)
      fix j assume "j < Suc n"
      then show "isl (fst (init_attempt k w tr j))"
        using h assms by (cases j) (simp_all add: init_attempt_0 a)
    qed
  qed
  then show ?thesis by (simp add: first_success_def a)
qed

lemma init_loop_success:
  assumes "first_success k w tr n"
  shows "init_loop k w tr =
           (case init_attempt k w tr n of (r, w', tr') \<Rightarrow> Some (projr r, w', tr'))"
  using assms
proof (induction n arbitrary: w tr)
  case 0
  obtain r w' tr' where i: "initResource k w tr = (r, w', tr')"
    by (cases "initResource k w tr") auto
  with 0 have "\<not> isl r" by (simp add: first_success_0)
  then obtain v where "r = Inr v" by (cases r) auto
  then show ?case using i by (subst init_loop.simps) (simp add: init_attempt_0)
next
  case (Suc n)
  obtain r w' tr' where i: "initResource k w tr = (r, w', tr')"
    by (cases "initResource k w tr") auto
  from Suc.prems have f: "isl r" "first_success k w' (tr' @ [Sleep initRetryWaitTime]) n"
    by (simp_all add: first_success_Suc [OF i])
  then obtain e where e: "r = Inl e" by (cases r) auto
  have "init_loop k w tr = init_loop k w' (tr' @ [Sleep initRetryWaitTime])"
    using i e by (subst init_loop.simps) simp
  also have "\<dots> = (case init_attempt k w' (tr' @ [Sleep initRetryWaitTime]) n of
                      (r, w', tr') \<Rightarrow> Some (projr r, w', tr'))"
    by (rule Suc.IH [OF f(2)])
  finally show ?case by (simp add: init_attempt_Suc [OF i])
qed

lemma init_loop_Some_first_success:
  assumes "init_loop k w tr = Some x"
  shows "\<exists>n. first_success k w tr n"
proof (rule init_loop.raw_induct [where P = "\<lambda>k w tr x. \<exists>n. first_success k w tr n", OF _ assms])
  fix f k w tr x
  assume IH: "\<And>k w tr y. f k w tr = Some y \<Longrightarrow> \<exists>n. first_success k w tr n"
    and eq: "(case initResource k w tr of
                (Inl err, w', tr') \<Rightarrow> f k w' (tr' @ [Sleep initRetryWaitTime])
              | (Inr watchVersion, w', tr') \<Rightarrow> Some (watchVersion, w', tr')) = Some x"
  obtain r w' tr' where i: "initResource k w tr = (r, w', tr')"
    by (cases "initResource k w tr") auto
  show "\<exists>n. first_success k w tr n"
  proof (cases r)
    case (Inr v)
    then have "first_success k w tr 0" using i by (simp add: first_success_0)
    then show ?thesis by blast
  next
    case (Inl e)
    then have "f k w' (tr' @ [Sleep initRetryWaitTime]) = Some x"
      using eq i by simp
    from IH [OF this] obtain n where "first_success k w' (tr' @ [Sleep initRetryWaitTime]) n"
      by blast
    then have "first_success k w tr (Suc n)"
      using i Inl by (simp add: first_success_Suc [OF i])
    then show ?thesis by blast
  qed
qed

lemma init_loop_None:
  assumes "\<forall>j. isl (fst (init_attempt k w tr j))"
  shows "init_loop k w tr = None"
proof (rule ccontr)
  assume "init_loop k w tr \<noteq> None"
  then obtain x where "init_loop k w tr = Some x" by auto
  from init_loop_Some_first_success [OF this] obtain n where "first_success k w tr n" by blast
  then show False using assms by (simp add: first_success_def)
qed

lemma initResource_trace:
  "\<exists>sfx. snd (snd (initResource k w tr)) = tr @ sfx \<and> list_all startup_action sfx \<and>
         count_list sfx (Sleep (30 * Second)) = 0"
  by (auto simp: initResource_def findAllDbs_def split: option.splits sum.splits prod.splits)

lemma init_state_trace:
  "\<exists>sfx. snd (init_state k w tr j) = tr @ sfx \<and> list_all startup_action sfx \<and>
         count_list sfx (Sleep (30 * Second)) = j"
proof (induction j arbitrary: w tr)
  case 0
  then show ?case by simp
next
  case (Suc j)
  obtain r w' tr' where i: "initResource k w tr = (r, w', tr')"
    by (cases "initResource k w tr") auto
  from initResource_trace [of k w tr] i obtain s1 where
    s1: "tr' = tr @ s1" "list_all startup_action s1" "count_list s1 (Sleep (30 * Second)) = 0"
    by auto
  from Suc.IH [of w' "tr' @ [Sleep initRetryWaitTime]"] obtain s2 where
    s2: "snd (init_state k w' (tr' @ [Sleep initRetryWaitTime]) j) =
           (tr' @ [Sleep initRetryWaitTime]) @ s2"
        "list_all startup_action s2" "count_list s2 (Sleep (30 * Second)) = j"
    by blast
  let ?s = "s1 @ [Sleep (30 * Second)] @ s2"
  have "snd (init_state k w tr (Suc j)) = tr @ ?s"
    using i s1(1) s2(1) by (simp add: initRetryWaitTime_def)
  moreover have "list_all startup_action ?s" using s1(2) s2(2) by simp
  moreover have "count_list ?s (Sleep (30 * Second)) = Suc j" using s1(3) s2(3) by simp
  ultimately show ?case by blast
qed

lemma init_attempt_trace:
  "\<exists>sfx. snd (snd (init_attempt k w tr j)) = tr @ sfx \<and> list_all startup_action sfx \<and>
         count_list sfx (Sleep (30 * Second)) = j"
proof -
  obtain w' tr' where s: "init_state k w tr j = (w', tr')"
    by (cases "init_state k w tr j") auto
  from init_state_trace [of k w tr j] s obtain s1 where
    s1: "tr' = tr @ s1" "list_all startup_action s1" "count_list s1 (Sleep (30 * Second)) = j"
    by auto
  from initResource_trace [of k w' tr'] obtain s2 where
    s2: "snd (snd (initResource k w' tr')) = tr' @ s2" "list_all startup_action s2"
        "count_list s2 (Sleep (30 * Second)) = 0"
    by blast
  have "snd (snd (init_attempt k w tr j)) = tr @ (s1 @ s2)"
    using s s1(1) s2(1) by (simp add: init_attempt_def)
  moreover have "list_all startup_action (s1 @ s2)" using s1(2) s2(2) by simp
  moreover have "count_list (s1 @ s2) (Sleep (30 * Second)) = j" using s1(3) s2(3) by simp
  ultimately show ?thesis by blast
qed

lemma startup_no_serving:
  "list_all startup_action sfx \<Longrightarrow> \<not> (\<exists>a \<in> set sfx. enters_serving a)"
proof (induction sfx)
  case Nil
  then show ?case by simp
next
  case (Cons x sfx)
  then show ?case by (cases x) auto
qed

lemma init_loop_first_success:
  assumes "first_success k w tr n"
  shows "\<exists>v w1 sfx.
           init_attempt k w tr n = (Inr v, w1, tr @ sfx) \<and>
           init_loop k w tr = Some (v, w1, tr @ sfx) \<and>
           list_all startup_action sfx \<and> count_list sfx (Sleep (30 * Second)) = n"
proof -
  obtain r w1 tr1 where a: "init_attempt k w tr n = (r, w1, tr1)"
    by (cases "init_attempt k w tr n") auto
  have "\<not> isl r" using assms a by (simp add: first_success_def)
  then obtain v where v: "r = Inr v" by (cases r) auto
  from init_attempt_trace [of k w tr n] a obtain sfx where
    s: "tr1 = tr @ sfx" "list_all startup_action sfx" "count_list sfx (Sleep (30 * Second)) = n"
    by auto
  have "init_loop k w tr = Some (v, w1, tr1)"
    using init_loop_success [OF assms] a v by simp
  then show ?thesis using a v s by blast
qed

lemma dispatch_trace:
  "\<exists>rest. snd (dispatch k e w tr) = tr @ rest \<and> list_all serving_action rest"
  by (auto simp: dispatch_def handleTidbEvent_def Let_def split: EventType.splits option.splits)

lemma recv_loop_trace:
  "\<exists>rest. recv_trace (recv_loop k items closes v w tr) = tr @ rest \<and> list_all serving_action rest"
proof (induction items arbitrary: v w tr)
  case Nil
  then show ?case by simp
next
  case (Cons item items)
  obtain ev st where item: "item = (ev, st)" by (cases item) auto
  show ?case
  proof (cases "st \<noteq> None \<and> Code (the st) = StatusGone")
    case True
    then show ?thesis
      unfolding item by (auto split: sum.splits option.splits)
  next
    case False
    let ?tr1 = "if st \<noteq> None then tr @ [StopWatch] else tr"
    show ?thesis
    proof (cases ev)
      case None
      then show ?thesis using False unfolding item by auto
    next
      case (Some e)
      obtain w' tr' where d: "dispatch k e w ?tr1 = (w', tr')"
        by (cases "dispatch k e w ?tr1") auto
      from dispatch_trace [of k e w ?tr1] d obtain r1 where
        r1: "tr' = ?tr1 @ r1" "list_all serving_action r1" by auto
      from Cons.IH [of "ResourceVersion (Metadata (Object e))" w' tr'] obtain r2 where
        r2: "recv_trace (recv_loop k items closes (ResourceVersion (Metadata (Object e))) w' tr') =
               tr' @ r2" "list_all serving_action r2"
        by blast
      have eq: "recv_loop k (item # items) closes v w tr =
                  recv_loop k items closes (ResourceVersion (Metadata (Object e))) w' tr'"
        using False Some d unfolding item by (cases st) (auto simp: Let_def)
      show ?thesis
      proof (cases "st \<noteq> None")
        case True
        then have "tr' @ r2 = tr @ (StopWatch # r1 @ r2)" using r1(1) by simp
        moreover have "list_all serving_action (StopWatch # r1 @ r2)" using r1(2) r2(2) by simp
        ultimately show ?thesis using eq r2(1) by metis
      next
        case False
        then have "tr' @ r2 = tr @ (r1 @ r2)" using r1(1) by simp
        moreover have "list_all serving_action (r1 @ r2)" using r1(2) r2(2) by simp
        ultimately show ?thesis using eq r2(1) by metis
      qed
    qed
  qed
qed

lemma serve_trace:
  "\<exists>rest. snd (snd (serve k v w tr)) = tr @ WatchTidbs v # rest \<and> list_all serving_action rest"
proof (cases "watchTidbs k tr v")
  case (Inl err)
  then show ?thesis by (simp add: serve_def watch_pass_def)
next
  case (Inr x)
  obtain items closes where x: "x = (items, closes)" by (cases x) auto
  let ?p = "recv_loop k items closes v w (tr @ [WatchTidbs v])"
  from recv_loop_trace [of k items closes v w "tr @ [WatchTidbs v]"] obtain rest where
    r: "recv_trace ?p = (tr @ [WatchTidbs v]) @ rest" "list_all serving_action rest"
    by blast
  have "snd (snd (serve k v w tr)) = recv_trace ?p"
    using Inr x by (cases ?p) (simp_all add: serve_def watch_pass_def)
  then show ?thesis using r by simp
qed

lemma Run_after_startup:
  assumes "init_loop k w tr = Some (v, w1, tr1)"
  shows "(pvProvisioner w1 = None \<longrightarrow>
            Run k w tr = Some (Crashes ''nil pointer dereference'', w1, tr1)) \<and>
         (\<forall>pv. pvProvisioner w1 = Some pv \<longrightarrow>
            (\<forall>e. pvClean k tr1 pv (all_stores k w1) = Some e \<longrightarrow>
               Run k w tr = Some (Returns e, w1, tr1 @ [Clean pv (all_stores k w1)])) \<and>
            (pvClean k tr1 pv (all_stores k w1) = None \<longrightarrow>
               (\<exists>out w2 rest.
                  Run k w tr =
                    Some (out, w2,
                      tr1 @ [Clean pv (all_stores k w1), GoCleanClusters cleanInterval,
                             WatchTidbs v] @ rest) \<and>
                  list_all serving_action rest)))"
proof (intro conjI impI allI)
  assume "pvProvisioner w1 = None"
  then show "Run k w tr = Some (Crashes ''nil pointer dereference'', w1, tr1)"
    using assms by (simp add: Run_def recycle_def)
next
  fix pv e
  assume "pvProvisioner w1 = Some pv" "pvClean k tr1 pv (all_stores k w1) = Some e"
  then show "Run k w tr = Some (Returns e, w1, tr1 @ [Clean pv (all_stores k w1)])"
    using assms by (simp add: Run_def recycle_def)
next
  fix pv
  assume pv: "pvProvisioner w1 = Some pv" "pvClean k tr1 pv (all_stores k w1) = None"
  let ?t = "tr1 @ [Clean pv (all_stores k w1), GoCleanClusters cleanInterval]"
  have R: "Run k w tr = Some (serve k v w1 ?t)"
    using assms pv by (simp add: Run_def recycle_def)
  from serve_trace [of k v w1 ?t] obtain rest where
    r: "snd (snd (serve k v w1 ?t)) = ?t @ WatchTidbs v # rest" "list_all serving_action rest"
    by blast
  obtain out w2 t2 where s: "serve k v w1 ?t = (out, w2, t2)"
    by (cases "serve k v w1 ?t") auto
  have "t2 = tr1 @ [Clean pv (all_stores k w1), GoCleanClusters cleanInterval, WatchTidbs v] @ rest"
    using r(1) s by simp
  with R s r(2) show "\<exists>out w2 rest.
        Run k w tr =
          Some (out, w2,
            tr1 @ [Clean pv (all_stores k w1), GoCleanClusters cleanInterval, WatchTidbs v] @ rest) \<and>
        list_all serving_action rest"
    by (intro exI [of _ out] exI [of _ w2] exI [of _ rest]) simp
qed

lemma Run_serving_only_after_startup:
  assumes "Run k w tr = Some (out, w2, tr2)"
    and "\<exists>a \<in> set (drop (length tr) tr2). enters_serving a"
  shows "\<exists>n v w1 tr1. first_success k w tr n \<and> init_loop k w tr = Some (v, w1, tr1) \<and>
           fst (recycle k w1 tr1) = OK"
proof -
  from assms(1) obtain v w1 tr1 where i: "init_loop k w tr = Some (v, w1, tr1)"
    by (auto simp: Run_def split: option.splits)
  from init_loop_Some_first_success [OF i] obtain n where n: "first_success k w tr n" by blast
  from init_loop_first_success [OF n] i obtain sfx where
    s: "tr1 = tr @ sfx" "list_all startup_action sfx" by auto
  obtain r t where rc: "recycle k w1 tr1 = (r, t)" by (cases "recycle k w1 tr1") auto
  have "r = OK"
  proof (rule ccontr)
    assume nok: "r \<noteq> OK"
    then have "tr2 = t" using assms(1) i rc by (cases r) (auto simp: Run_def)
    moreover have "t = tr1 \<or> (\<exists>pv. t = tr1 @ [Clean pv (all_stores k w1)])"
      using rc by (auto simp: recycle_def split: option.splits)
    ultimately have "drop (length tr) tr2 = sfx \<or>
        (\<exists>pv. drop (length tr) tr2 = sfx @ [Clean pv (all_stores k w1)])"
      using s(1) by auto
    then show False using assms(2) startup_no_serving [OF s(2)] by auto
  qed
  then show ?thesis using n i rc by auto
qed

lemma Run_recycle_fails:
  assumes "init_loop k w tr = Some (v, w1, tr1)" and "recycle k w1 tr1 = (Fail e, t)"
  shows "Run k w tr = Some (Returns e, w1, t)"
  using assms by (simp add: Run_def)

lemma Run_never_starts:
  assumes "\<forall>j. isl (fst (init_attempt k w tr j))"
  shows "Run k w tr = None"
  using init_loop_None [OF assms] by (simp add: Run_def)

lemma recv_loop_normal:
  "recv_loop k (map normal evs @ rest) closes v w tr =
     (case dispatch_all k evs w tr of
        (w', tr') \<Rightarrow> recv_loop k rest closes (cursor_after v evs) w' tr')"
proof (induction evs arbitrary: v w tr)
  case Nil
  then show ?case by (simp add: cursor_after_def)
next
  case (Cons e evs)
  obtain w' tr' where d: "dispatch k e w tr = (w', tr')" by (cases "dispatch k e w tr") auto
  have c: "cursor_after (ResourceVersion (Metadata (Object e))) evs = cursor_after v (e # evs)"
    by (simp add: cursor_after_def)
  show ?case
    using Cons.IH [of "ResourceVersion (Metadata (Object e))" w' tr'] d c
    by (simp add: normal_def)
qed

lemma recv_loop_gone:
  assumes "Code st = StatusGone"
  shows "recv_loop k ((ev, Some st) # rest) closes v w tr =
           (case getAllDbs k (tr @ [StopWatch]) of
              Inl err \<Rightarrow> Exit ErrVersionOutdated w (tr @ [StopWatch, GetAllDbs])
            | Inr None \<Rightarrow> Crash ''nil pointer dereference'' w (tr @ [StopWatch, GetAllDbs])
            | Inr (Some dbList) \<Rightarrow>
                if \<not> isDbsCacheUnstable w (Items dbList)
                then Break (ListResourceVersion dbList) w (tr @ [StopWatch, GetAllDbs])
                else Exit ErrVersionOutdated w (tr @ [StopWatch, GetAllDbs]))"
  using assms by simp

text \<open>
  Claim C1, amended. After a successful startup and recycle pass (the ticker of the
  periodic sweep has been started): when opening the watch stream fails, \<open>Run\<close> returns
  that error; while the stream stays open and delivers only cluster events, \<open>Run\<close> does
  not return; when the stream, after such events, yields a status with code 410, the
  controller stops the stream and relists, and when the relist fails or the stability
  check reports "unstable", \<open>Run\<close> returns \<open>ErrVersionOutdated\<close>; when the check reports
  "stable", the receive loop is left with the cursor set to the resource version of the
  fresh list.
\<close>

theorem Run_watch_outcomes:
  assumes "init_loop k w tr = Some (v, w1, tr1)"
    and "recycle k w1 tr1 = (OK, tr2)"
    and "dispatch_all k evs w1 (tr2 @ [GoCleanClusters cleanInterval, WatchTidbs v]) = (w3, tr3)"
  shows "(watchTidbs k (tr2 @ [GoCleanClusters cleanInterval]) v = Inl e \<longrightarrow>
            Run k w tr = Some (Returns e, w1, tr2 @ [GoCleanClusters cleanInterval, WatchTidbs v])) \<and>
         (watchTidbs k (tr2 @ [GoCleanClusters cleanInterval]) v = Inr (map normal evs, False) \<longrightarrow>
            Run k w tr = Some (Blocks, w3, tr3)) \<and>
         (watchTidbs k (tr2 @ [GoCleanClusters cleanInterval]) v = Inr (map normal evs @ (ev, Some st) # rest, closes) \<and>
          Code st = StatusGone \<longrightarrow>
            (\<forall>err. getAllDbs k (tr3 @ [StopWatch]) = Inl err \<longrightarrow>
               Run k w tr = Some (Returns ErrVersionOutdated, w3, tr3 @ [StopWatch, GetAllDbs])) \<and>
            (\<forall>l. getAllDbs k (tr3 @ [StopWatch]) = Inr (Some l) \<longrightarrow>
               (isDbsCacheUnstable w3 (Items l) \<longrightarrow>
                  Run k w tr = Some (Returns ErrVersionOutdated, w3, tr3 @ [StopWatch, GetAllDbs])) \<and>
               (\<not> isDbsCacheUnstable w3 (Items l) \<longrightarrow>
                  watch_pass k v w1 (tr2 @ [GoCleanClusters cleanInterval]) =
                    Break (ListResourceVersion l) w3 (tr3 @ [StopWatch, GetAllDbs]))))"
proof -
  have R: "Run k w tr = Some (serve k v w1 (tr2 @ [GoCleanClusters cleanInterval]))"
    using assms(1,2) by (simp add: Run_def)
  have 1: "watchTidbs k (tr2 @ [GoCleanClusters cleanInterval]) v = Inl e \<longrightarrow>
            Run k w tr = Some (Returns e, w1, tr2 @ [GoCleanClusters cleanInterval, WatchTidbs v])"
    by (simp add: R serve_def watch_pass_def)
  have 2: "watchTidbs k (tr2 @ [GoCleanClusters cleanInterval]) v = Inr (map normal evs, False) \<longrightarrow>
            Run k w tr = Some (Blocks, w3, tr3)"
    using recv_loop_normal [of k evs "[]" False v w1 "tr2 @ [GoCleanClusters cleanInterval, WatchTidbs v]"] assms(3)
    by (simp add: R serve_def watch_pass_def)
  have 3: "watchTidbs k (tr2 @ [GoCleanClusters cleanInterval]) v = Inr (map normal evs @ (ev, Some st) # rest, closes) \<and>
          Code st = StatusGone \<longrightarrow>
            (\<forall>err. getAllDbs k (tr3 @ [StopWatch]) = Inl err \<longrightarrow>
               Run k w tr = Some (Returns ErrVersionOutdated, w3, tr3 @ [StopWatch, GetAllDbs])) \<and>
            (\<forall>l. getAllDbs k (tr3 @ [StopWatch]) = Inr (Some l) \<longrightarrow>
               (isDbsCacheUnstable w3 (Items l) \<longrightarrow>
                  Run k w tr = Some (Returns ErrVersionOutdated, w3, tr3 @ [StopWatch, GetAllDbs])) \<and>
               (\<not> isDbsCacheUnstable w3 (Items l) \<longrightarrow>
                  watch_pass k v w1 (tr2 @ [GoCleanClusters cleanInterval]) =
                    Break (ListResourceVersion l) w3 (tr3 @ [StopWatch, GetAllDbs])))"
  proof (intro impI, elim conjE)
    assume wt: "watchTidbs k (tr2 @ [GoCleanClusters cleanInterval]) v = Inr (map normal evs @ (ev, Some st) # rest, closes)"
      and g: "Code st = StatusGone"
    have p: "watch_pass k v w1 (tr2 @ [GoCleanClusters cleanInterval]) =
        recv_loop k ((ev, Some st) # rest) closes (cursor_after v evs) w3 tr3"
      using recv_loop_normal [of k evs "(ev, Some st) # rest" closes v w1 "tr2 @ [GoCleanClusters cleanInterval, WatchTidbs v]"]
        assms(3) wt
      by (simp add: watch_pass_def)
    show "(\<forall>err. getAllDbs k (tr3 @ [StopWatch]) = Inl err \<longrightarrow>
               Run k w tr = Some (Returns ErrVersionOutdated, w3, tr3 @ [StopWatch, GetAllDbs])) \<and>
            (\<forall>l. getAllDbs k (tr3 @ [StopWatch]) = Inr (Some l) \<longrightarrow>
               (isDbsCacheUnstable w3 (Items l) \<longrightarrow>
                  Run k w tr = Some (Returns ErrVersionOutdated, w3, tr3 @ [StopWatch, GetAllDbs])) \<and>
               (\<not> isDbsCacheUnstable w3 (Items l) \<longrightarrow>
                  watch_pass k v w1 (tr2 @ [GoCleanClusters cleanInterval]) =
                    Break (ListResourceVersion l) w3 (tr3 @ [StopWatch, GetAllDbs])))"
      unfolding R serve_def p recv_loop_gone [OF g] by simp
  qed
  show ?thesis using 1 2 3 by blast
qed

text \<open>
  Claim C6, amended. The steps of \<open>initResource\<close> (registering the resource type,
  listing the clusters and seeding the maps, selecting the provisioner) are retried until
  the first attempt that succeeds, with a 30-second wait after each failed attempt and
  nothing else in between; when no attempt ever succeeds, \<open>Run\<close> never returns and
  never enters the serving loop. The recycle pass runs exactly once, right after the
  successful attempt, and is not retried: it calls the provisioner's \<open>Clean\<close> with the
  stores of all clusters; when that call fails, \<open>Run\<close> returns its error with the call
  as the last action; when it succeeds, the serving loop is entered: the ticker of the
  periodic sweep is started, the watch stream is opened at the version the successful
  attempt returned, and only calls of the watch goroutine and of the dispatcher follow.
  The serving loop (the start of the periodic sweep as well as the opening of a watch
  stream) is entered only after an attempt of \<open>initResource\<close> has succeeded and the
  recycle pass has succeeded.
\<close>

theorem startup_retry:
  "(first_success k w tr n \<longrightarrow>
      (\<exists>v w1 sfx.
         init_attempt k w tr n = (Inr v, w1, tr @ sfx) \<and>
         init_loop k w tr = Some (v, w1, tr @ sfx) \<and>
         list_all startup_action sfx \<and> count_list sfx (Sleep (30 * Second)) = n \<and>
         (pvProvisioner w1 = None \<longrightarrow>
            Run k w tr = Some (Crashes ''nil pointer dereference'', w1, tr @ sfx)) \<and>
         (\<forall>pv. pvProvisioner w1 = Some pv \<longrightarrow>
            (\<forall>e. pvClean k (tr @ sfx) pv (all_stores k w1) = Some e \<longrightarrow>
               Run k w tr = Some (Returns e, w1, tr @ sfx @ [Clean pv (all_stores k w1)])) \<and>
            (pvClean k (tr @ sfx) pv (all_stores k w1) = None \<longrightarrow>
               (\<exists>out w2 rest.
                  Run k w tr =
                    Some (out, w2,
                      tr @ sfx @ [Clean pv (all_stores k w1), GoCleanClusters cleanInterval,
                                  WatchTidbs v] @ rest) \<and>
                  list_all serving_action rest))))) \<and>
   ((\<forall>j. isl (fst (init_attempt k w tr j))) \<longrightarrow> Run k w tr = None) \<and>
   (\<forall>out w2 tr2.
      Run k w tr = Some (out, w2, tr2) \<and> (\<exists>a \<in> set (drop (length tr) tr2). enters_serving a) \<longrightarrow>
      (\<exists>m v w1 tr1. first_success k w tr m \<and> init_loop k w tr = Some (v, w1, tr1) \<and>
         fst (recycle k w1 tr1) = OK))"
proof -
  have 1: "first_success k w tr n \<longrightarrow>
      (\<exists>v w1 sfx.
         init_attempt k w tr n = (Inr v, w1, tr @ sfx) \<and>
         init_loop k w tr = Some (v, w1, tr @ sfx) \<and>
         list_all startup_action sfx \<and> count_list sfx (Sleep (30 * Second)) = n \<and>
         (pvProvisioner w1 = None \<longrightarrow>
            Run k w tr = Some (Crashes ''nil pointer dereference'', w1, tr @ sfx)) \<and>
         (\<forall>pv. pvProvisioner w1 = Some pv \<longrightarrow>
            (\<forall>e. pvClean k (tr @ sfx) pv (all_stores k w1) = Some e \<longrightarrow>
               Run k w tr = Some (Returns e, w1, tr @ sfx @ [Clean pv (all_stores k w1)])) \<and>
            (pvClean k (tr @ sfx) pv (all_stores k w1) = None \<longrightarrow>
               (\<exists>out w2 rest.
                  Run k w tr =
                    Some (out, w2,
                      tr @ sfx @ [Clean pv (all_stores k w1), GoCleanClusters cleanInterval,
                                  WatchTidbs v] @ rest) \<and>
                  list_all serving_action rest))))"
  proof
    assume "first_success k w tr n"
    from init_loop_first_success [OF this] obtain v w1 sfx where
      s: "init_attempt k w tr n = (Inr v, w1, tr @ sfx)"
         "init_loop k w tr = Some (v, w1, tr @ sfx)"
         "list_all startup_action sfx" "count_list sfx (Sleep (30 * Second)) = n"
      by blast
    show "\<exists>v w1 sfx.
         init_attempt k w tr n = (Inr v, w1, tr @ sfx) \<and>
         init_loop k w tr = Some (v, w1, tr @ sfx) \<and>
         list_all startup_action sfx \<and> count_list sfx (Sleep (30 * Second)) = n \<and>
         (pvProvisioner w1 = None \<longrightarrow>
            Run k w tr = Some (Crashes ''nil pointer dereference'', w1, tr @ sfx)) \<and>
         (\<forall>pv. pvProvisioner w1 = Some pv \<longrightarrow>
            (\<forall>e. pvClean k (tr @ sfx) pv (all_stores k w1) = Some e \<longrightarrow>
               Run k w tr = Some (Returns e, w1, tr @ sfx @ [Clean pv (all_stores k w1)])) \<and>
            (pvClean k (tr @ sfx) pv (all_stores k w1) = None \<longrightarrow>
               (\<exists>out w2 rest.
                  Run k w tr =
                    Some (out, w2,
                      tr @ sfx @ [Clean pv (all_stores k w1), GoCleanClusters cleanInterval,
                                  WatchTidbs v] @ rest) \<and>
                  list_all serving_action rest)))"
      using s Run_after_startup [OF s(2)]
      by (intro exI [of _ v] exI [of _ w1] exI [of _ sfx]) simp
  qed
  show ?thesis
    using 1 Run_never_starts [of k w tr] Run_serving_only_after_startup [of k w tr]
    by blast
qed

lemma flaky_attempts:
  "init_attempt flaky_env (NewWatcher ''node1'' ''none'') [] 0 =
     (Inl (ErrorfWrap ''fail to create TPR: %v'' (ApiError ''unavailable'')),
      NewWatcher ''node1'' ''none'', [CreateTPR])"
  "init_attempt flaky_env (NewWatcher ''node1'' ''none'') [] (Suc 0) =
     (Inl (ErrorfWrap ''fail to create TPR: %v'' (ApiError ''unavailable'')),
      NewWatcher ''node1'' ''none'', [CreateTPR, Sleep (30 * Second), CreateTPR])"
  "init_attempt flaky_env (NewWatcher ''node1'' ''none'') [] (Suc (Suc 0)) =
     (Inr ''200'', example_watcher,
      [CreateTPR, Sleep (30 * Second), CreateTPR, Sleep (30 * Second), CreateTPR, GetAllDbs])"
  by (simp_all add: init_attempt_def initResource_def findAllDbs_def flaky_env_def
        example_env_def NewWatcher_def example_watcher_def example_db_def
        initRetryWaitTime_def Let_def)

theorem startup_retry_witness:
  "first_success flaky_env (NewWatcher ''node1'' ''none'') [] 2 \<and>
   init_loop flaky_env (NewWatcher ''node1'' ''none'') [] =
     Some (''200'', example_watcher,
       [CreateTPR, Sleep (30 * Second), CreateTPR, Sleep (30 * Second), CreateTPR, GetAllDbs]) \<and>
   pvProvisioner example_watcher = Some NilPVProvisioner \<and>
   (\<exists>out w2 rest.
      Run flaky_env (NewWatcher ''node1'' ''none'') [] =
        Some (out, w2,
          [CreateTPR, Sleep (30 * Second), CreateTPR, Sleep (30 * Second), CreateTPR, GetAllDbs,
           Clean NilPVProvisioner [], GoCleanClusters cleanInterval, WatchTidbs ''200''] @ rest) \<and>
      list_all serving_action rest)"
proof -
  let ?w = "NewWatcher ''node1'' ''none''"
  let ?t = "[CreateTPR, Sleep (30 * Second), CreateTPR, Sleep (30 * Second), CreateTPR, GetAllDbs]"
  have "\<forall>j<Suc (Suc 0). isl (fst (init_attempt flaky_env ?w [] j))"
    by (simp add: less_Suc_eq flaky_attempts)
  then have f: "first_success flaky_env ?w [] 2"
    by (simp add: first_success_def numeral_2_eq_2 flaky_attempts)
  have a: "init_attempt flaky_env ?w [] 2 = (Inr ''200'', example_watcher, ?t)"
    by (simp add: numeral_2_eq_2 flaky_attempts)
  have p: "pvProvisioner example_watcher = Some NilPVProvisioner"
    by (simp add: example_watcher_def)
  have s: "all_stores flaky_env example_watcher = []"
    by (simp add: all_stores_def flaky_env_def example_env_def example_watcher_def example_db_def)
  have c: "pvClean flaky_env ?t NilPVProvisioner [] = None"
    by (simp add: flaky_env_def example_env_def)
  from startup_retry [of flaky_env ?w "[]" 2] f obtain v w1 sfx where
    i: "init_attempt flaky_env ?w [] 2 = (Inr v, w1, [] @ sfx)"
       "init_loop flaky_env ?w [] = Some (v, w1, [] @ sfx)"
    and r: "\<forall>pv. pvProvisioner w1 = Some pv \<longrightarrow>
            (pvClean flaky_env ([] @ sfx) pv (all_stores flaky_env w1) = None \<longrightarrow>
               (\<exists>out w2 rest.
                  Run flaky_env ?w [] =
                    Some (out, w2,
                      [] @ sfx @ [Clean pv (all_stores flaky_env w1),
                                  GoCleanClusters cleanInterval, WatchTidbs v] @ rest) \<and>
                  list_all serving_action rest))"
    by blast
  from i(1) a have e: "v = ''200''" "w1 = example_watcher" "sfx = ?t" by simp_all
  from r [unfolded e, rule_format, OF p] s c have
    "\<exists>out w2 rest.
       Run flaky_env ?w [] =
         Some (out, w2,
           [] @ ?t @ [Clean NilPVProvisioner [], GoCleanClusters cleanInterval,
                      WatchTidbs ''200''] @ rest) \<and>
       list_all serving_action rest"
    by simp
  then show ?thesis using f i(2) e p by simp
qed

lemma example_init:
  assumes "createTPR k = createTPR example_env" "getAllDbs k = getAllDbs example_env"
    "AfterPropertiesSet k = AfterPropertiesSet example_env"
    "PVProvisionerNone k = PVProvisionerNone example_env"
  shows "init_loop k (NewWatcher ''node1'' ''none'') [] =
           Some (''200'', example_watcher, [CreateTPR, GetAllDbs])"
  by (subst init_loop.simps)
     (simp add: initResource_def findAllDbs_def assms example_env_def NewWatcher_def
        example_watcher_def example_db_def Let_def)

lemma example_recycle:
  assumes "rangeKeys k = rangeKeys example_env"
  shows "recycle k example_watcher tr =
           (result_of (pvClean k tr NilPVProvisioner []), tr @ [Clean NilPVProvisioner []])"
  by (simp add: recycle_def all_stores_def assms example_env_def example_watcher_def example_db_def)

text \<open>
  When the recycle pass fails, \<open>Run\<close> returns the error of \<open>Clean\<close>; there is no
  wait and no second attempt.
\<close>

theorem Run_recycle_failure_returns:
  "Run clean_fails_env (NewWatcher ''node1'' ''none'') [] =
     Some (Returns (ApiError ''clean failed''), example_watcher,
           [CreateTPR, GetAllDbs, Clean NilPVProvisioner []])"
proof -
  have i: "init_loop clean_fails_env (NewWatcher ''node1'' ''none'') [] =
           Some (''200'', example_watcher, [CreateTPR, GetAllDbs])"
    by (rule example_init) (simp_all add: clean_fails_env_def)
  have r: "recycle clean_fails_env example_watcher [CreateTPR, GetAllDbs] =
           (Fail (ApiError ''clean failed''), [CreateTPR, GetAllDbs, Clean NilPVProvisioner []])"
    by (simp add: example_recycle clean_fails_env_def)
  show ?thesis by (simp add: Run_def i r)
qed

text \<open>
  When the watch stream cannot be opened, \<open>Run\<close> returns the error of \<open>WatchTidbs\<close>,
  although no 410 status was received.
\<close>

theorem Run_watch_open_failure_returns:
  "Run refused_env (NewWatcher ''node1'' ''none'') [] =
     Some (Returns (ApiError ''connection refused''), example_watcher,
           [CreateTPR, GetAllDbs, Clean NilPVProvisioner [], GoCleanClusters cleanInterval,
            WatchTidbs ''200''])"
proof -
  have i: "init_loop refused_env (NewWatcher ''node1'' ''none'') [] =
           Some (''200'', example_watcher, [CreateTPR, GetAllDbs])"
    by (rule example_init) (simp_all add: refused_env_def)
  have r: "recycle refused_env example_watcher [CreateTPR, GetAllDbs] =
           (OK, [CreateTPR, GetAllDbs, Clean NilPVProvisioner []])"
    by (simp add: example_recycle refused_env_def) (simp add: example_env_def)
  have s: "serve refused_env ''200'' example_watcher
             [CreateTPR, GetAllDbs, Clean NilPVProvisioner [], GoCleanClusters cleanInterval] =
           (Returns (ApiError ''connection refused''), example_watcher,
            [CreateTPR, GetAllDbs, Clean NilPVProvisioner [], GoCleanClusters cleanInterval,
            WatchTidbs ''200''])"
    by (simp add: serve_def watch_pass_def refused_env_def)
  show ?thesis by (simp add: Run_def i r s)
qed

text \<open>
  When the platform closes the stream, the inner loop is left and the goroutine sends
  \<open>errors.New("test")\<close> on \<open>errCh\<close>, which \<open>Run\<close> returns.
\<close>

lemma Run_stream_closed_example:
  "Run closed_env (NewWatcher ''node1'' ''none'') [] =
     Some (Returns (ErrorsNew ''test''), example_watcher,
           [CreateTPR, GetAllDbs, Clean NilPVProvisioner [], GoCleanClusters cleanInterval,
            WatchTidbs ''200''])"
proof -
  have i: "init_loop closed_env (NewWatcher ''node1'' ''none'') [] =
           Some (''200'', example_watcher, [CreateTPR, GetAllDbs])"
    by (rule example_init) (simp_all add: closed_env_def)
  have r: "recycle closed_env example_watcher [CreateTPR, GetAllDbs] =
           (OK, [CreateTPR, GetAllDbs, Clean NilPVProvisioner []])"
    by (simp add: example_recycle closed_env_def) (simp add: example_env_def)
  have s: "serve closed_env ''200'' example_watcher
             [CreateTPR, GetAllDbs, Clean NilPVProvisioner [], GoCleanClusters cleanInterval] =
           (Returns (ErrorsNew ''test''), example_watcher,
            [CreateTPR, GetAllDbs, Clean NilPVProvisioner [], GoCleanClusters cleanInterval,
            WatchTidbs ''200''])"
    by (simp add: serve_def watch_pass_def closed_env_def)
  show ?thesis by (simp add: Run_def i r s)
qed

theorem Run_watch_outcomes_witness:
  "init_loop gone_env (NewWatcher ''node1'' ''none'') [] =
     Some (''200'', example_watcher, [CreateTPR, GetAllDbs]) \<and>
   recycle gone_env example_watcher [CreateTPR, GetAllDbs] =
     (OK, [CreateTPR, GetAllDbs, Clean NilPVProvisioner []]) \<and>
   isDbsCacheUnstable example_watcher [example_db ''c1'' ''105''] \<and>
   Run gone_env (NewWatcher ''node1'' ''none'') [] =
     Some (Returns ErrVersionOutdated, example_watcher,
           [CreateTPR, GetAllDbs, Clean NilPVProvisioner [], GoCleanClusters cleanInterval,
            WatchTidbs ''200'', StopWatch, GetAllDbs])"
proof -
  let ?tr2 = "[CreateTPR, GetAllDbs, Clean NilPVProvisioner []]"
  let ?st = "\<lparr>Code = 410, Message = ''too old''\<rparr>"
  let ?l = "\<lparr>Items = [example_db ''c1'' ''105''], ListResourceVersion = ''300''\<rparr>"
  have i: "init_loop gone_env (NewWatcher ''node1'' ''none'') [] =
           Some (''200'', example_watcher, [CreateTPR, GetAllDbs])"
    by (subst init_loop.simps)
       (simp add: initResource_def findAllDbs_def gone_env_def example_env_def NewWatcher_def
          example_watcher_def example_db_def Let_def)
  have r: "recycle gone_env example_watcher [CreateTPR, GetAllDbs] = (OK, ?tr2)"
    by (simp add: example_recycle gone_env_def) (simp add: example_env_def)
  have d: "dispatch_all gone_env [] example_watcher
             (?tr2 @ [GoCleanClusters cleanInterval, WatchTidbs ''200'']) =
             (example_watcher, ?tr2 @ [GoCleanClusters cleanInterval, WatchTidbs ''200''])"
    by simp
  have wt: "watchTidbs gone_env (?tr2 @ [GoCleanClusters cleanInterval]) ''200'' = Inr (map normal [] @ (None, Some ?st) # [], True)"
    by (simp add: gone_env_def)
  have g: "Code ?st = StatusGone" by (simp add: StatusGone_def)
  have l: "getAllDbs gone_env
             ((?tr2 @ [GoCleanClusters cleanInterval, WatchTidbs ''200'']) @ [StopWatch]) = Inr (Some ?l)"
    by (simp add: gone_env_def)
  have u: "isDbsCacheUnstable example_watcher (Items ?l)"
    by (simp add: isDbsCacheUnstable_def example_watcher_def example_db_def fcard_finsert_if)
  have "Run gone_env (NewWatcher ''node1'' ''none'') [] =
     Some (Returns ErrVersionOutdated, example_watcher,
           (?tr2 @ [GoCleanClusters cleanInterval, WatchTidbs ''200'']) @ [StopWatch, GetAllDbs])"
    using Run_watch_outcomes [OF i r d, of _ None ?st "[]" True] wt g l u by blast
  then show ?thesis using i r u by simp
qed

end
